theory Spec2Isabelle
  imports Main "HOL-Library.Word"
begin

unbundle bit_operations_syntax

section \<open>Compression utilities of fheroes2 (src/engine/zzlib.cpp)\<close>

text \<open>
  The file wraps zlib: \<open>unzipData\<close> and \<open>zipData\<close> work on byte buffers,
  \<open>unzipStream\<close> and \<open>zipStreamBuf\<close> frame a compressed block on a binary stream, and
  \<open>CreateImageFromZlib\<close> turns a compressed blob into an image. The embedding below follows
  the C++ statement by statement. Three things are outside the file and are made explicit:
  the integer widths of the target platform, the zlib library, and the stream and image
  classes of the engine.

  One exception of the C++ is a result of the model: \<open>std::length_error\<close>, which the
  constructor of line 52 throws when it is asked for more than \<open>max_size()\<close> elements. The
  size it is asked for is a parameter of \<open>unzipData\<close>, and \<open>unzipStream\<close> reads it from
  four bytes of its input. Nothing in the file catches it, so it leaves every function on
  the way. The other requests for memory cannot throw it on a source that is a buffer in
  memory, which has at most \<open>max_size()\<close> bytes: line 65 asks for the size of the source,
  or for seven times it after the guard of line 57; line 84 follows the guard of line 79;
  and line 115 asks for the bound of the library for the source, which passes \<open>max_size()\<close>
  only for a source so large that no memory is left for the vector. Exhausted memory
  (\<open>std::bad_alloc\<close>) is not modelled, there and elsewhere: every other allocation is
  taken to succeed. \<open>ERROR_LOG\<close>, which has no effect on any result, is left out.
\<close>

type_synonym byte = "8 word"

subsection \<open>The platform: widths of \<open>size_t\<close> and \<open>uLong\<close>, and \<open>vector::max_size\<close>\<close>

text \<open>
  The code compares a \<open>size_t\<close> with its own conversion to zlib's \<open>uLong\<close>, and a vector's size
  with \<open>max_size()\<close>. These differ between the targets of the engine, so they are parameters:
  \<open>size_bits\<close> is the width of \<open>size_t\<close>, \<open>uLong_bits\<close> the width of \<open>uLong\<close>
  (\<open>unsigned long\<close>), and \<open>max_size\<close> what \<open>std::vector<uint8_t>::max_size()\<close> returns.
\<close>

record platform =
  size_bits :: nat
  uLong_bits :: nat
  max_size :: nat

text \<open>64-bit Linux and macOS: both types have 64 bits.\<close>

definition LP64 :: platform where
  "LP64 = \<lparr>size_bits = 64, uLong_bits = 64, max_size = 2 ^ 63 - 1\<rparr>"

text \<open>64-bit Windows: \<open>size_t\<close> has 64 bits, \<open>unsigned long\<close> has 32.\<close>

definition LLP64 :: platform where
  "LLP64 = \<lparr>size_bits = 64, uLong_bits = 32, max_size = 2 ^ 63 - 1\<rparr>"

text \<open>32-bit targets: both types have 32 bits.\<close>

definition ILP32 :: platform where
  "ILP32 = \<lparr>size_bits = 32, uLong_bits = 32, max_size = 2 ^ 31 - 1\<rparr>"

text \<open>\<open>static_cast<uLong>( n )\<close> and the conversion of a value to \<open>size_t\<close>.\<close>

definition to_uLong :: "platform \<Rightarrow> nat \<Rightarrow> nat" where
  "to_uLong p n = n mod 2 ^ uLong_bits p"

definition to_size_t :: "platform \<Rightarrow> nat \<Rightarrow> nat" where
  "to_size_t p n = n mod 2 ^ size_bits p"

subsection \<open>The zlib library\<close>

text \<open>
  zlib is an external library. Its three entry points used here are the fields of a record,
  so that every function below is defined for any behaviour of the library:
  \<^item> \<open>compressBound n\<close> is the value \<open>compressBound( n )\<close> returns;
  \<^item> \<open>compress cap src\<close> stands for \<open>compress( dest, &destLen, src, srcLen )\<close> called with
    \<open>destLen = cap\<close> on the \<open>srcLen\<close> bytes \<open>src\<close>: it gives the return code and the bytes
    written to \<open>dest\<close>, whose number is the value of \<open>destLen\<close> on exit;
  \<^item> \<open>uncompress cap src\<close> is \<open>uncompress( dest, &destLen, src, srcLen )\<close> in the same way.
  The return codes are those of \<open>zlib.h\<close>.
\<close>

record zlib =
  compressBound :: "nat \<Rightarrow> nat"
  compress :: "nat \<Rightarrow> byte list \<Rightarrow> int \<times> byte list"
  uncompress :: "nat \<Rightarrow> byte list \<Rightarrow> int \<times> byte list"

definition Z_OK :: int where
  "Z_OK = 0"

definition Z_DATA_ERROR :: int where
  "Z_DATA_ERROR = - 3"

definition Z_BUF_ERROR :: int where
  "Z_BUF_ERROR = - 5"

text \<open>The exception that can leave the functions of the file.\<close>

datatype error = LengthError

text \<open>The calls made to the library, in the order they are made.\<close>

datatype zcall =
    CompressBound nat
  | Compress nat "byte list"
  | Uncompress nat "byte list"

subsection \<open>\<open>Compression::unzipData\<close>\<close>

text \<open>
  A pointer with a length, \<open>( src, srcSize )\<close>, is a \<open>byte list option\<close>: \<open>None\<close> is the null
  pointer and \<open>Some bs\<close> points to the \<open>srcSize = length bs\<close> bytes \<open>bs\<close>.

  The retry loop of lines 74 to 91, with what follows it (lines 93 to 100) in its exits.
  \<open>resSize\<close> is \<open>res.size()\<close>, which the loop also keeps in \<open>dstSizeULong\<close>. The product
  \<open>res.size() * 2\<close> cannot wrap in \<open>size_t\<close>, since it is at most \<open>max_size()\<close>. Nothing in
  the loop itself bounds the number of rounds, so it is a partial function: \<open>None\<close> stands for
  a loop that never ends.
\<close>

partial_function (option) unzip_loop ::
  "platform \<Rightarrow> zlib \<Rightarrow> byte list \<Rightarrow> nat \<Rightarrow> zcall list \<Rightarrow> (byte list \<times> zcall list) option" where
  "unzip_loop p Z src resSize calls =
     (case uncompress Z resSize src of
        (ret, out) \<Rightarrow>
          let calls' = calls @ [Uncompress resSize src] in
          if ret = Z_BUF_ERROR then
            if resSize > max_size p div 2 then Some ([], calls')
            else if to_uLong p (resSize * 2) \<noteq> resSize * 2 then Some ([], calls')
            else unzip_loop p Z src (resSize * 2) calls'
          else if ret \<noteq> Z_OK then Some ([], calls')
          else Some (out, calls'))"

text \<open>The size of the buffer before the first attempt (lines 52 to 66).\<close>

definition firstSize :: "platform \<Rightarrow> nat \<Rightarrow> nat \<Rightarrow> nat" where
  "firstSize p srcSize realSize =
     (if realSize = 0 then
        (if srcSize > max_size p div 7 then srcSize else srcSize * 7)
      else realSize)"

text \<open>
  A call that returns gives \<open>Inr\<close> of the returned vector and the library calls made. A
  call that is left by the exception of line 52, \<open>std::vector<uint8_t> res( realSize )\<close> with
  \<open>realSize\<close> above \<open>max_size()\<close>, gives \<open>Inl LengthError\<close>.
\<close>

definition unzipData ::
  "platform \<Rightarrow> zlib \<Rightarrow> byte list option \<Rightarrow> nat
     \<Rightarrow> (error + byte list \<times> zcall list) option" where
  "unzipData p Z src realSize =
     (case src of
        None \<Rightarrow> Some (Inr ([], []))
      | Some bs \<Rightarrow>
          let srcSize = length bs in
          if srcSize = 0 then Some (Inr ([], []))
          else if to_uLong p srcSize \<noteq> srcSize then Some (Inr ([], []))
          else if realSize > max_size p then Some (Inl LengthError)
          else
            let resSize = firstSize p srcSize realSize in
            if to_uLong p resSize \<noteq> resSize then Some (Inr ([], []))
            else map_option Inr (unzip_loop p Z bs resSize []))"

subsection \<open>\<open>Compression::zipData\<close>\<close>

definition zipData :: "platform \<Rightarrow> zlib \<Rightarrow> byte list option \<Rightarrow> byte list \<times> zcall list" where
  "zipData p Z src =
     (case src of
        None \<Rightarrow> ([], [])
      | Some bs \<Rightarrow>
          let srcSize = length bs in
          if srcSize = 0 then ([], [])
          else if to_uLong p srcSize \<noteq> srcSize then ([], [])
          else
            let resSize = to_size_t p (compressBound Z srcSize);
                calls = [CompressBound srcSize] in
            if to_uLong p resSize \<noteq> resSize then ([], calls)
            else
              (case compress Z resSize bs of
                 (ret, out) \<Rightarrow>
                   let calls' = calls @ [Compress resSize bs] in
                   if ret \<noteq> Z_OK then ([], calls') else (out, calls')))"

subsection \<open>The stream classes\<close>

text \<open>
  \<open>IStreamBase\<close> and \<open>OStreamBase\<close> are abstract classes of the engine (\<open>serialize.h\<close>); the
  functions below only call their virtual members. A stream class is therefore a record of
  these members over a state \<open>'s\<close> of its own, and the framing functions are defined for
  every such record. A member that reads returns the value together with the new state.
\<close>

record 's IStreamBase =
  get32 :: "'s \<Rightarrow> 32 word \<times> 's"
  get16 :: "'s \<Rightarrow> 16 word \<times> 's"
  skip :: "nat \<Rightarrow> 's \<Rightarrow> 's"
  getRaw :: "nat \<Rightarrow> 's \<Rightarrow> byte list \<times> 's"

record 's OStreamBase =
  put32 :: "32 word \<Rightarrow> 's \<Rightarrow> 's"
  put16 :: "16 word \<Rightarrow> 's \<Rightarrow> 's"
  putRaw :: "byte list \<Rightarrow> 's \<Rightarrow> 's"
  fail :: "'s \<Rightarrow> bool"

text \<open>
  An \<open>IStreamBuf\<close> is read through \<open>data()\<close> and \<open>size()\<close> only: it is the pointer with
  its length that \<open>zipData\<close> receives.
\<close>

type_synonym IStreamBuf = "byte list option"

definition buf_size :: "IStreamBuf \<Rightarrow> nat" where
  "buf_size b = (case b of None \<Rightarrow> 0 | Some bs \<Rightarrow> length bs)"

definition FORMAT_VERSION_0 :: "16 word" where
  "FORMAT_VERSION_0 = 0"

subsection \<open>\<open>Compression::unzipStream\<close>\<close>

text \<open>
  The result is the returned flag with both streams as the call leaves them. The vector
  \<open>zip\<close> of the source is \<open>zipv\<close> here. It is passed as \<open>( zip.data(), zip.size() )\<close>;
  whether \<open>data()\<close> of an empty vector is null makes no difference to \<open>unzipData\<close>. A
  \<open>uint32_t\<close> passed as a \<open>size_t\<close> is converted. The exception of \<open>unzipData\<close> leaves this
  function too.
\<close>

definition unzipStream ::
  "platform \<Rightarrow> zlib \<Rightarrow> 's IStreamBase \<Rightarrow> 't OStreamBase \<Rightarrow> 's \<Rightarrow> 't
     \<Rightarrow> (error + bool \<times> 's \<times> 't) option" where
  "unzipStream p Z IS OS inputStream outputStream =
     (case get32 IS inputStream of
        (rawSize, in1) \<Rightarrow>
          (case get32 IS in1 of
             (zipSize, in2) \<Rightarrow>
               if zipSize = 0 then Some (Inr (False, in2, outputStream))
               else
                 (case get16 IS in2 of
                    (version, in3) \<Rightarrow>
                      if version \<noteq> FORMAT_VERSION_0
                      then Some (Inr (False, in3, outputStream))
                      else
                        let in4 = skip IS 2 in3 in
                        (case getRaw IS (to_size_t p (unat zipSize)) in4 of
                           (zipv, in5) \<Rightarrow>
                             (case unzipData p Z (Some zipv) (to_size_t p (unat rawSize)) of
                                None \<Rightarrow> None
                              | Some (Inl e) \<Rightarrow> Some (Inl e)
                              | Some (Inr (raw, calls)) \<Rightarrow>
                                  if length raw \<noteq> unat rawSize
                                  then Some (Inr (False, in5, outputStream))
                                  else
                                    let out1 = putRaw OS raw outputStream in
                                    Some (Inr (\<not> fail OS out1, in5, out1)))))))"

subsection \<open>\<open>Compression::zipStreamBuf\<close>\<close>

text \<open>\<open>static_cast<uint32_t>\<close> keeps the low 32 bits, as \<open>of_nat\<close> into \<open>32 word\<close> does.\<close>

definition zipStreamBuf ::
  "platform \<Rightarrow> zlib \<Rightarrow> 't OStreamBase \<Rightarrow> IStreamBuf \<Rightarrow> 't \<Rightarrow> bool \<times> 't" where
  "zipStreamBuf p Z OS inputStream outputStream =
     (let zipv = fst (zipData p Z inputStream) in
      if zipv = [] then (False, outputStream)
      else
        let out1 = put32 OS (of_nat (buf_size inputStream)) outputStream;
            out2 = put32 OS (of_nat (length zipv)) out1;
            out3 = put16 OS FORMAT_VERSION_0 out2;
            out4 = put16 OS 0 out3;
            out5 = putRaw OS zipv out4
        in (\<not> fail OS out5, out5))"

subsection \<open>The image class\<close>

text \<open>
  Modelled from the spec: \<open>fheroes2::Image\<close> (\<open>image.h\<close> is not part of the sources at hand).
  The spec asks of it a width and a height, a plane of colour indices, a second plane of
  transform indices that can be disabled, and \<open>resize\<close>. A default image has no pixels and
  both planes enabled. \<open>resize\<close> allocates the planes for positive dimensions, with the
  number of pixels computed in \<open>size_t\<close>; the new bytes, which C++ leaves uninitialised, are
  zero here, and are overwritten before the image is returned.
\<close>

record Image =
  img_width :: "32 word"
  img_height :: "32 word"
  img_image :: "byte list"
  img_transform :: "byte list"
  img_singleLayer :: bool

definition emptyImage :: Image where
  "emptyImage = \<lparr>img_width = 0, img_height = 0, img_image = [], img_transform = [],
                  img_singleLayer = False\<rparr>"

definition disableTransformLayer :: "Image \<Rightarrow> Image" where
  "disableTransformLayer img = img\<lparr>img_singleLayer := True\<rparr>"

definition pixels :: "platform \<Rightarrow> 32 word \<Rightarrow> 32 word \<Rightarrow> nat" where
  "pixels p w h = to_size_t p (nat (sint w) * nat (sint h))"

definition resize :: "platform \<Rightarrow> 32 word \<Rightarrow> 32 word \<Rightarrow> Image \<Rightarrow> Image" where
  "resize p w h img =
     (if sint w \<le> 0 \<or> sint h \<le> 0 then img
      else img\<lparr>img_width := w, img_height := h,
               img_image := replicate (pixels p w h) 0,
               img_transform := (if img_singleLayer img then [] else replicate (pixels p w h) 0)\<rparr>)"

text \<open>\<open>std::memcpy( dst, src, n )\<close> on a plane \<open>dst\<close>: its first \<open>n\<close> bytes become those of \<open>src\<close>.\<close>

definition memcpy :: "byte list \<Rightarrow> byte list \<Rightarrow> nat \<Rightarrow> byte list" where
  "memcpy dst src n = take n src @ drop n dst"

subsection \<open>\<open>Compression::CreateImageFromZlib\<close>\<close>

text \<open>
  \<open>width\<close> and \<open>height\<close> are \<open>int32_t\<close>: 32-bit words read as signed. In line 190 \<open>width\<close> is
  cast to \<open>size_t\<close> and the product is taken in \<open>size_t\<close>, so it is reduced modulo
  \<open>2 ^ size_bits\<close>; both factors are positive there. \<open>size & 1\<close> is the parity of the size.
  The result is \<open>Inr\<close> of the image returned; an exception of \<open>unzipData\<close> would leave this
  function too.
\<close>

definition CreateImageFromZlib ::
  "platform \<Rightarrow> zlib \<Rightarrow> 32 word \<Rightarrow> 32 word \<Rightarrow> byte list option \<Rightarrow> bool
     \<Rightarrow> (error + Image) option" where
  "CreateImageFromZlib p Z width height imageData doubleLayer =
     (if imageData = None \<or> buf_size imageData = 0 \<or> sint width \<le> 0 \<or> sint height \<le> 0
      then Some (Inr emptyImage)
      else
        (case unzipData p Z imageData 0 of
           None \<Rightarrow> None
         | Some (Inl e) \<Rightarrow> Some (Inl e)
         | Some (Inr (uncompressedData, calls)) \<Rightarrow>
             if doubleLayer \<and> length uncompressedData mod 2 = 1 then Some (Inr emptyImage)
             else
               let uncompressedSize =
                     (if doubleLayer then length uncompressedData div 2
                      else length uncompressedData) in
               if to_size_t p (nat (sint width) * nat (sint height)) \<noteq> uncompressedSize
               then Some (Inr emptyImage)
               else
                 let out0 = emptyImage;
                     out1 = (if \<not> doubleLayer then disableTransformLayer out0 else out0);
                     out2 = resize p width height out1;
                     out3 = out2\<lparr>img_image := memcpy (img_image out2) uncompressedData uncompressedSize\<rparr>;
                     out4 = (if doubleLayer
                             then out3\<lparr>img_transform :=
                                    memcpy (img_transform out3)
                                      (drop uncompressedSize uncompressedData) uncompressedSize\<rparr>
                             else out3)
                 in Some (Inr out4)))"

subsection \<open>A stream kept in memory\<close>

text \<open>
  Modelled from the spec: a stream that implements both interfaces on a buffer of bytes
  (\<open>serialize.cpp\<close> is not part of the sources at hand). Section 6 of the spec leaves the
  byte order to the stream, so it is a flag of the stream. Writing appends at the end and
  never faults; reading consumes from the front; reading past the end sets the fault flag
  and yields zero bytes. \<open>getRaw n\<close> returns exactly \<open>n\<close> bytes.
\<close>

record memstream =
  content :: "byte list"
  failed :: bool
  bigEndian :: bool

definition bytes16 :: "bool \<Rightarrow> 16 word \<Rightarrow> byte list" where
  "bytes16 be v =
     (let lo = [ucast v, ucast (drop_bit 8 v)] in if be then rev lo else lo)"

definition bytes32 :: "bool \<Rightarrow> 32 word \<Rightarrow> byte list" where
  "bytes32 be v =
     (let lo = [ucast v, ucast (drop_bit 8 v), ucast (drop_bit 16 v), ucast (drop_bit 24 v)]
      in if be then rev lo else lo)"

definition mem_put :: "byte list \<Rightarrow> memstream \<Rightarrow> memstream" where
  "mem_put bs s = s\<lparr>content := content s @ bs\<rparr>"

definition mem_get8 :: "memstream \<Rightarrow> byte \<times> memstream" where
  "mem_get8 s =
     (case content s of
        [] \<Rightarrow> (0, s\<lparr>failed := True\<rparr>)
      | b # bs \<Rightarrow> (b, s\<lparr>content := bs\<rparr>))"

definition mem_get16 :: "memstream \<Rightarrow> 16 word \<times> memstream" where
  "mem_get16 s =
     (case mem_get8 s of
        (a, s1) \<Rightarrow>
          (case mem_get8 s1 of
             (b, s2) \<Rightarrow>
               (if bigEndian s then push_bit 8 (ucast a) OR ucast b
                else ucast a OR push_bit 8 (ucast b), s2)))"

definition mem_get32 :: "memstream \<Rightarrow> 32 word \<times> memstream" where
  "mem_get32 s =
     (case mem_get8 s of
        (a, s1) \<Rightarrow>
          (case mem_get8 s1 of
             (b, s2) \<Rightarrow>
               (case mem_get8 s2 of
                  (c, s3) \<Rightarrow>
                    (case mem_get8 s3 of
                       (d, s4) \<Rightarrow>
                         (if bigEndian s
                          then push_bit 24 (ucast a) OR push_bit 16 (ucast b)
                                 OR push_bit 8 (ucast c) OR ucast d
                          else ucast a OR push_bit 8 (ucast b)
                                 OR push_bit 16 (ucast c) OR push_bit 24 (ucast d), s4)))))"

definition mem_skip :: "nat \<Rightarrow> memstream \<Rightarrow> memstream" where
  "mem_skip n s = s\<lparr>content := drop n (content s)\<rparr>"

definition mem_getRaw :: "nat \<Rightarrow> memstream \<Rightarrow> byte list \<times> memstream" where
  "mem_getRaw n s =
     (take n (content s) @ replicate (n - length (content s)) 0,
      s\<lparr>content := drop n (content s)\<rparr>)"

definition memIStream :: "memstream IStreamBase" where
  "memIStream = \<lparr>get32 = mem_get32, get16 = mem_get16, skip = mem_skip, getRaw = mem_getRaw\<rparr>"

definition memOStream :: "memstream OStreamBase" where
  "memOStream =
     \<lparr>put32 = (\<lambda>v s. mem_put (bytes32 (bigEndian s) v) s),
      put16 = (\<lambda>v s. mem_put (bytes16 (bigEndian s) v) s),
      putRaw = mem_put,
      fail = failed\<rparr>"

definition freshStream :: "bool \<Rightarrow> memstream" where
  "freshStream be = \<lparr>content = [], failed = False, bigEndian = be\<rparr>"

subsection \<open>What zlib promises\<close>

text \<open>
  \<open>decodes_to Z z d\<close>: the bytes \<open>z\<close> are a complete zlib stream for the data \<open>d\<close>. As
  \<open>zlib.h\<close> documents \<open>uncompress\<close>, a destination that can hold \<open>d\<close> gives \<open>Z_OK\<close> and \<open>d\<close>,
  and a smaller one gives \<open>Z_BUF_ERROR\<close>.
\<close>

definition decodes_to :: "zlib \<Rightarrow> byte list \<Rightarrow> byte list \<Rightarrow> bool" where
  "decodes_to Z z d \<longleftrightarrow>
     (\<forall>cap. (length d \<le> cap \<longrightarrow> uncompress Z cap z = (Z_OK, d))
          \<and> (cap < length d \<longrightarrow> fst (uncompress Z cap z) = Z_BUF_ERROR))"

text \<open>
  The contract of \<open>compress\<close>: a destination of at least \<open>compressBound\<close> bytes is enough,
  and what a successful call writes is a non-empty stream that fits the destination and
  decodes to the source. The first promise is only used where \<open>compressBound\<close> is at least
  the source length, which leaves out the lengths at which the bound, computed in \<open>uLong\<close>,
  has wrapped. Running out of memory (\<open>Z_MEM_ERROR\<close>) is excluded by the contract.
\<close>

definition zlib_contract :: "zlib \<Rightarrow> bool" where
  "zlib_contract Z \<longleftrightarrow>
     (\<forall>src cap. src \<noteq> [] \<longrightarrow> length src \<le> compressBound Z (length src)
         \<longrightarrow> compressBound Z (length src) \<le> cap \<longrightarrow> fst (compress Z cap src) = Z_OK)
     \<and> (\<forall>src cap z. src \<noteq> [] \<longrightarrow> compress Z cap src = (Z_OK, z)
         \<longrightarrow> z \<noteq> [] \<and> length z \<le> cap \<and> decodes_to Z z src)"

subsection \<open>A small library for the concrete instances\<close>

text \<open>
  A stand-in for zlib that can be run: a stream is the byte \<open>0x78\<close> followed by pairs of a
  count and a value, each pair standing for that many copies of the value. \<open>compress\<close>
  writes one pair for each source byte. It honours the contract above.
\<close>

fun rle_decode :: "byte list \<Rightarrow> byte list option" where
  "rle_decode [] = Some []"
| "rle_decode [c] = None"
| "rle_decode (c # b # rest) =
     (case rle_decode rest of
        None \<Rightarrow> None
      | Some d \<Rightarrow> Some (replicate (unat c) b @ d))"

definition rle_encode :: "byte list \<Rightarrow> byte list" where
  "rle_encode src = concat (map (\<lambda>b. [1, b]) src)"

definition rle_zlib :: zlib where
  "rle_zlib =
     \<lparr>compressBound = (\<lambda>n. 2 * n + 1),
      compress = (\<lambda>cap src.
         let z = 0x78 # rle_encode src in
         if length z \<le> cap then (Z_OK, z) else (Z_BUF_ERROR, [])),
      uncompress = (\<lambda>cap z.
         case z of
           [] \<Rightarrow> (Z_DATA_ERROR, [])
         | h # body \<Rightarrow>
             if h \<noteq> 0x78 then (Z_DATA_ERROR, [])
             else
               (case rle_decode body of
                  None \<Rightarrow> (Z_DATA_ERROR, [])
                | Some d \<Rightarrow> if length d \<le> cap then (Z_OK, d) else (Z_BUF_ERROR, [])))\<rparr>"

subsection \<open>Predicates used in the statements\<close>

text \<open>
  \<open>exit_ok p Z src resSize res\<close> says how the retry loop was left after an attempt with a
  buffer of \<open>resSize\<close> bytes: with the library's output if it reported success; with an
  empty vector after \<open>Z_BUF_ERROR\<close>, and then the buffer could not be doubled (the double
  would exceed \<open>max_size()\<close>, line 79, or does not fit \<open>uLong\<close>, line 87); with an empty
  vector after any other code.
\<close>

definition exit_ok :: "platform \<Rightarrow> zlib \<Rightarrow> byte list \<Rightarrow> nat \<Rightarrow> byte list \<Rightarrow> bool" where
  "exit_ok p Z src resSize res =
     (case uncompress Z resSize src of
        (ret, out) \<Rightarrow>
          if ret = Z_OK then res = out
          else if ret = Z_BUF_ERROR then
            res = [] \<and> (max_size p div 2 < resSize \<or> to_uLong p (resSize * 2) \<noteq> resSize * 2)
          else res = [])"

text \<open>
  \<open>retried p Z src resSize\<close> says that the loop went on after an attempt with a buffer of
  \<open>resSize\<close> bytes: the library reported a buffer too small, and the doubled size neither
  exceeds \<open>max_size()\<close> (line 79) nor leaves the range of \<open>uLong\<close> (line 87).
\<close>

definition retried :: "platform \<Rightarrow> zlib \<Rightarrow> byte list \<Rightarrow> nat \<Rightarrow> bool" where
  "retried p Z src resSize \<longleftrightarrow>
     fst (uncompress Z resSize src) = Z_BUF_ERROR \<and> resSize \<le> max_size p div 2
     \<and> to_uLong p (resSize * 2) = resSize * 2"

text \<open>
  \<open>zip_fits p Z n\<close>: a source of \<open>n\<close> bytes passes the size checks of \<open>zipData\<close>. Both \<open>n\<close>
  and \<open>compressBound n\<close> are values of \<open>uLong\<close>, the bound is a value of \<open>size_t\<close>, and the
  bound has not wrapped below \<open>n\<close>.
\<close>

definition zip_fits :: "platform \<Rightarrow> zlib \<Rightarrow> nat \<Rightarrow> bool" where
  "zip_fits p Z n \<longleftrightarrow>
     n < 2 ^ uLong_bits p \<and> n \<le> compressBound Z n
     \<and> compressBound Z n < 2 ^ size_bits p \<and> compressBound Z n < 2 ^ uLong_bits p"

text \<open>
  \<open>growth_fits p srcSize n\<close>: \<open>unzipData\<close>, given \<open>srcSize\<close> compressed bytes and no size
  hint, can reach a buffer of \<open>n\<close> bytes. The compressed size and the first guess are values
  of \<open>uLong\<close>; and if the first guess is below \<open>n\<close>, twice \<open>n\<close> exceeds neither
  \<open>max_size()\<close> nor the range of \<open>uLong\<close>, so that no doubling on the way is refused.
\<close>

definition growth_fits :: "platform \<Rightarrow> nat \<Rightarrow> nat \<Rightarrow> bool" where
  "growth_fits p srcSize n \<longleftrightarrow>
     srcSize < 2 ^ uLong_bits p \<and> firstSize p srcSize 0 < 2 ^ uLong_bits p
     \<and> (firstSize p srcSize 0 < n \<longrightarrow> 2 * n \<le> max_size p \<and> 2 * n \<le> 2 ^ uLong_bits p)"

section \<open>Properties\<close>

subsection \<open>Return codes and conversions\<close>

lemma Z_codes_distinct: "Z_BUF_ERROR \<noteq> Z_OK"
  by (simp add: Z_BUF_ERROR_def Z_OK_def)

lemma to_uLong_id: "n < 2 ^ uLong_bits p \<Longrightarrow> to_uLong p n = n"
  by (simp add: to_uLong_def)

lemma to_size_t_id: "n < 2 ^ size_bits p \<Longrightarrow> to_size_t p n = n"
  by (simp add: to_size_t_def)

lemma to_uLong_big: "2 ^ uLong_bits p \<le> n \<Longrightarrow> to_uLong p n \<noteq> n"
proof -
  assume "2 ^ uLong_bits p \<le> n"
  moreover have "n mod 2 ^ uLong_bits p < 2 ^ uLong_bits p"
    by simp
  ultimately show ?thesis
    unfolding to_uLong_def by linarith
qed

lemma upt_0_5: "[0..<5] = [0, 1, 2, 3, 4]"
  by (simp add: upt_rec numeral_eq_Suc)

lemma unat_of_nat_32: "n < 2 ^ 32 \<Longrightarrow> unat (of_nat n :: 32 word) = n"
  by (simp add: unat_of_nat)

lemma of_nat_32_eq_0: "0 < n \<Longrightarrow> n < 2 ^ 32 \<Longrightarrow> (of_nat n :: 32 word) \<noteq> 0"
  using unat_of_nat_32 [of n] by auto

subsection \<open>The retry loop\<close>

text \<open>One round of the loop: either it goes on with the doubled buffer, or it is left.\<close>

lemma unzip_loop_retry:
  assumes "fst (uncompress Z r src) = Z_BUF_ERROR" and "r \<le> max_size p div 2"
    and "r * 2 < 2 ^ uLong_bits p"
  shows "unzip_loop p Z src r calls = unzip_loop p Z src (r * 2) (calls @ [Uncompress r src])"
  using assms
  by (subst unzip_loop.simps) (cases "uncompress Z r src", simp add: to_uLong_id Let_def)

lemma unzip_loop_stop:
  assumes "uncompress Z r src = (ret, out)"
    and "ret \<noteq> Z_BUF_ERROR \<or> max_size p div 2 < r \<or> to_uLong p (r * 2) \<noteq> r * 2"
  shows "unzip_loop p Z src r calls
           = Some (if ret = Z_OK then out else [], calls @ [Uncompress r src])"
  using assms by (subst unzip_loop.simps) (auto simp: Z_codes_distinct Let_def)

text \<open>
  The loop ends whatever the library answers, as long as it starts from a buffer that is not
  empty: a round that goes on doubles a size of at most half of \<open>max_size()\<close>, so the distance
  to \<open>max_size()\<close> shrinks. The sizes tried are \<open>r\<close>, \<open>2 r\<close>, \<open>4 r\<close>, and so on.
\<close>

lemma unzip_loop_run:
  assumes "0 < r"
  shows "\<exists>res m. 0 < m
          \<and> unzip_loop p Z src r calls
              = Some (res, calls @ map (\<lambda>k. Uncompress (r * 2 ^ k) src) [0..<m])
          \<and> (\<forall>k. Suc k < m \<longrightarrow> retried p Z src (r * 2 ^ k))
          \<and> exit_ok p Z src (r * 2 ^ (m - 1)) res"
  using assms
proof (induction "max_size p - r" arbitrary: r calls rule: less_induct)
  case less
  obtain ret out where u: "uncompress Z r src = (ret, out)"
    by (cases "uncompress Z r src")
  show ?case
  proof (cases "retried p Z src r")
    case False
    with u have stop: "ret \<noteq> Z_BUF_ERROR \<or> max_size p div 2 < r \<or> to_uLong p (r * 2) \<noteq> r * 2"
      by (auto simp: retried_def)
    with u have "unzip_loop p Z src r calls
                 = Some (if ret = Z_OK then out else [], calls @ [Uncompress r src])"
      by (rule unzip_loop_stop)
    moreover have "exit_ok p Z src r (if ret = Z_OK then out else [])"
      using stop u by (auto simp: exit_ok_def Z_codes_distinct)
    ultimately show ?thesis
      by (intro exI [of _ "if ret = Z_OK then out else []"] exI [of _ "Suc 0"]) simp
  next
    case True
    then have t: "ret = Z_BUF_ERROR" "r \<le> max_size p div 2" "to_uLong p (r * 2) = r * 2"
      using u by (simp_all add: retried_def)
    then have step: "unzip_loop p Z src r calls
                 = unzip_loop p Z src (r * 2) (calls @ [Uncompress r src])"
      using u by (subst unzip_loop.simps) (simp add: Let_def)
    from t less.prems have "max_size p - r * 2 < max_size p - r" "0 < r * 2"
      by auto
    from less.hyps [OF this, of "calls @ [Uncompress r src]"]
    obtain res m where m: "0 < m"
      and run: "unzip_loop p Z src (r * 2) (calls @ [Uncompress r src])
              = Some (res, (calls @ [Uncompress r src])
                             @ map (\<lambda>k. Uncompress (r * 2 * 2 ^ k) src) [0..<m])"
      and buf: "\<forall>k. Suc k < m \<longrightarrow> retried p Z src (r * 2 * 2 ^ k)"
      and ex: "exit_ok p Z src (r * 2 * 2 ^ (m - 1)) res"
      by blast
    have "unzip_loop p Z src r calls
            = Some (res, calls @ map (\<lambda>k. Uncompress (r * 2 ^ k) src) [0..<Suc m])"
      unfolding step run by (simp add: map_upt_Suc mult.assoc del: upt_Suc)
    moreover have "\<forall>k. Suc k < Suc m \<longrightarrow> retried p Z src (r * 2 ^ k)"
    proof (intro allI impI)
      fix k assume "Suc k < Suc m"
      show "retried p Z src (r * 2 ^ k)"
      proof (cases k)
        case 0
        then show ?thesis using True by simp
      next
        case (Suc j)
        with \<open>Suc k < Suc m\<close> buf show ?thesis by (simp add: mult.assoc)
      qed
    qed
    moreover have "exit_ok p Z src (r * 2 ^ (Suc m - 1)) res"
      using ex m by (cases m) (simp_all add: mult.assoc)
    ultimately show ?thesis
      by (intro exI [of _ res] exI [of _ "Suc m"]) simp
  qed
qed

text \<open>On a valid stream the loop stops at the first size that holds the data.\<close>

lemma unzip_loop_decodes:
  assumes dec: "decodes_to Z z d"
    and fit: "r0 < length d \<longrightarrow> 2 * length d \<le> max_size p \<and> 2 * length d \<le> 2 ^ uLong_bits p"
    and pos: "0 < r" and above: "r0 \<le> r"
  shows "\<exists>m. unzip_loop p Z z r calls
               = Some (d, calls @ map (\<lambda>k. Uncompress (r * 2 ^ k) z) [0..<Suc m])
            \<and> length d \<le> r * 2 ^ m \<and> (\<forall>k<m. r * 2 ^ k < length d)"
  using pos above
proof (induction "length d - r" arbitrary: r calls rule: less_induct)
  case less
  show ?case
  proof (cases "length d \<le> r")
    case True
    with dec have "uncompress Z r z = (Z_OK, d)"
      by (simp add: decodes_to_def)
    then have "unzip_loop p Z z r calls = Some (d, calls @ [Uncompress r z])"
      by (simp add: unzip_loop_stop [where ret = Z_OK and out = d] Z_codes_distinct [symmetric])
    with True show ?thesis
      by (intro exI [of _ 0]) simp
  next
    case False
    then have small: "r < length d" by simp
    with dec have buf: "fst (uncompress Z r z) = Z_BUF_ERROR"
      by (simp add: decodes_to_def)
    from small less.prems fit have "r \<le> max_size p div 2" "r * 2 < 2 ^ uLong_bits p"
      by auto
    with buf have step: "unzip_loop p Z z r calls
                       = unzip_loop p Z z (r * 2) (calls @ [Uncompress r z])"
      by (rule unzip_loop_retry)
    from small less.prems have "length d - r * 2 < length d - r" "0 < r * 2" "r0 \<le> r * 2"
      by auto
    from less.hyps [OF this, of "calls @ [Uncompress r z]"]
    obtain m where run: "unzip_loop p Z z (r * 2) (calls @ [Uncompress r z])
           = Some (d, (calls @ [Uncompress r z])
                        @ map (\<lambda>k. Uncompress (r * 2 * 2 ^ k) z) [0..<Suc m])"
      and big: "length d \<le> r * 2 * 2 ^ m"
      and low: "\<forall>k<m. r * 2 * 2 ^ k < length d"
      by blast
    have "unzip_loop p Z z r calls
            = Some (d, calls @ map (\<lambda>k. Uncompress (r * 2 ^ k) z) [0..<Suc (Suc m)])"
      unfolding step run by (simp add: map_upt_Suc mult.assoc del: upt_Suc)
    moreover have "length d \<le> r * 2 ^ Suc m"
      using big by (simp add: mult.assoc)
    moreover have "\<forall>k<Suc m. r * 2 ^ k < length d"
    proof (intro allI impI)
      fix k assume "k < Suc m"
      then show "r * 2 ^ k < length d"
        using small low by (cases k) (simp_all add: mult.assoc)
    qed
    ultimately show ?thesis
      by (intro exI [of _ "Suc m"]) blast
  qed
qed

subsection \<open>\<open>unzipData\<close> and \<open>zipData\<close>\<close>

lemma unzipData_enter:
  assumes "length bs = n" and "0 < n" and "n < 2 ^ uLong_bits p"
    and "realSize \<le> max_size p"
    and "firstSize p n realSize = r" and "r < 2 ^ uLong_bits p"
  shows "unzipData p Z (Some bs) realSize = map_option Inr (unzip_loop p Z bs r [])"
  using assms by (auto simp: unzipData_def to_uLong_id)

text \<open>\<open>unzipData\<close> ends, by a return or by the exception, whatever the library answers.\<close>

lemma unzipData_total: "\<exists>res. unzipData p Z src realSize = Some res"
proof (cases "\<exists>bs. src = Some bs \<and> bs \<noteq> []")
  case False
  then show ?thesis by (auto simp: unzipData_def split: option.splits)
next
  case True
  then obtain bs where bs: "src = Some bs" "bs \<noteq> []" by blast
  then have "0 < firstSize p (length bs) realSize"
    by (simp add: firstSize_def)
  from unzip_loop_run [OF this, of p Z bs "[]"] bs show ?thesis
    by (auto simp: unzipData_def Let_def)
qed

text \<open>It returns when the size it is given does not exceed \<open>max_size()\<close>.\<close>

lemma unzipData_returns:
  assumes "realSize \<le> max_size p"
  shows "\<exists>res calls. unzipData p Z src realSize = Some (Inr (res, calls))"
proof (cases "\<exists>bs. src = Some bs \<and> bs \<noteq> []")
  case False
  then show ?thesis by (auto simp: unzipData_def split: option.splits)
next
  case True
  then obtain bs where bs: "src = Some bs" "bs \<noteq> []" by blast
  then have "0 < firstSize p (length bs) realSize"
    by (simp add: firstSize_def)
  from unzip_loop_run [OF this, of p Z bs "[]"] bs assms show ?thesis
    by (auto simp: unzipData_def Let_def)
qed

text \<open>
  So the functions that call \<open>unzipData\<close> end as well: \<open>None\<close> never is the value of any
  function of this file.
\<close>

lemma unzipStream_total: "\<exists>res. unzipStream p Z IS OS s t = Some res"
proof -
  obtain rawSize s1 where a: "get32 IS s = (rawSize, s1)"
    by (cases "get32 IS s")
  obtain zipSize s2 where b: "get32 IS s1 = (zipSize, s2)"
    by (cases "get32 IS s1")
  obtain version s3 where c: "get16 IS s2 = (version, s3)"
    by (cases "get16 IS s2")
  obtain zipv s5 where d: "getRaw IS (to_size_t p (unat zipSize)) (skip IS 2 s3) = (zipv, s5)"
    by (cases "getRaw IS (to_size_t p (unat zipSize)) (skip IS 2 s3)")
  from unzipData_total obtain res where
    "unzipData p Z (Some zipv) (to_size_t p (unat rawSize)) = Some res"
    by blast
  with a b c d show ?thesis
    by (cases res) (auto simp: unzipStream_def Let_def)
qed

lemma CreateImageFromZlib_total:
  "\<exists>img. CreateImageFromZlib p Z width height imageData doubleLayer = Some (Inr img)"
proof -
  from unzipData_returns [of 0] obtain u calls where
    "unzipData p Z imageData 0 = Some (Inr (u, calls))"
    by blast
  then show ?thesis
    by (auto simp: CreateImageFromZlib_def Let_def)
qed

lemma unzipData_decodes:
  assumes dec: "decodes_to Z z d" and ne: "z \<noteq> []"
    and fit: "growth_fits p (length z) (length d)"
  shows "\<exists>m. unzipData p Z (Some z) 0
               = Some (Inr (d, map (\<lambda>k. Uncompress (firstSize p (length z) 0 * 2 ^ k) z)
                                [0..<Suc m]))
            \<and> length d \<le> firstSize p (length z) 0 * 2 ^ m
            \<and> (\<forall>k<m. firstSize p (length z) 0 * 2 ^ k < length d)"
proof -
  let ?r = "firstSize p (length z) 0"
  from ne have pos: "0 < ?r"
    by (simp add: firstSize_def)
  from fit have f: "?r < length d \<longrightarrow> 2 * length d \<le> max_size p \<and> 2 * length d \<le> 2 ^ uLong_bits p"
    and u: "length z < 2 ^ uLong_bits p" "?r < 2 ^ uLong_bits p"
    by (simp_all add: growth_fits_def)
  from ne u have "unzipData p Z (Some z) 0 = map_option Inr (unzip_loop p Z z ?r [])"
    by (intro unzipData_enter [OF refl]) simp_all
  with unzip_loop_decodes [OF dec f pos order_refl, of "[]"] show ?thesis
    by auto
qed

lemma unzipData_known_size:
  assumes dec: "decodes_to Z z B" and "z \<noteq> []" and "length z < 2 ^ uLong_bits p"
    and "B \<noteq> []" and "length B < 2 ^ uLong_bits p" and "length B \<le> max_size p"
  shows "unzipData p Z (Some z) (length B) = Some (Inr (B, [Uncompress (length B) z]))"
proof -
  have "unzipData p Z (Some z) (length B) = map_option Inr (unzip_loop p Z z (length B) [])"
    using assms by (intro unzipData_enter [OF refl]) (simp_all add: firstSize_def)
  moreover from dec have "uncompress Z (length B) z = (Z_OK, B)"
    by (simp add: decodes_to_def)
  ultimately show ?thesis
    by (simp add: unzip_loop_stop [where ret = Z_OK and out = B] Z_codes_distinct [symmetric])
qed

lemma zipData_contract:
  assumes con: "zlib_contract Z" and ne: "B \<noteq> []" and fit: "zip_fits p Z (length B)"
  shows "\<exists>z. zipData p Z (Some B)
               = (z, [CompressBound (length B), Compress (compressBound Z (length B)) B])
            \<and> z \<noteq> [] \<and> length z \<le> compressBound Z (length B) \<and> decodes_to Z z B"
proof -
  let ?cb = "compressBound Z (length B)"
  from fit have c: "to_uLong p (length B) = length B" "to_size_t p ?cb = ?cb"
      "to_uLong p ?cb = ?cb" "length B \<le> ?cb"
    by (simp_all add: zip_fits_def to_uLong_id to_size_t_id)
  from con ne c(4) have "fst (compress Z ?cb B) = Z_OK"
    by (simp add: zlib_contract_def)
  then obtain z where z: "compress Z ?cb B = (Z_OK, z)"
    by (cases "compress Z ?cb B") simp
  with con ne have "z \<noteq> [] \<and> length z \<le> ?cb \<and> decodes_to Z z B"
    unfolding zlib_contract_def by blast
  moreover have "zipData p Z (Some B) = (z, [CompressBound (length B), Compress ?cb B])"
    using ne c z by (simp add: zipData_def Let_def)
  ultimately show ?thesis by blast
qed

subsection \<open>The small library honours the contract\<close>

lemma rle_decode_encode: "rle_decode (rle_encode src) = Some src"
  by (induction src) (simp_all add: rle_encode_def)

lemma length_rle_encode: "length (rle_encode src) = 2 * length src"
  by (induction src) (simp_all add: rle_encode_def)

lemma rle_decode_runs:
  "rle_decode (concat (replicate k [c, b])) = Some (replicate (k * unat c) b)"
  by (induction k) (simp_all add: replicate_add)

lemma rle_decodes:
  "rle_decode body = Some d \<Longrightarrow> decodes_to rle_zlib (0x78 # body) d"
  by (simp add: decodes_to_def rle_zlib_def)

lemma rle_uncompress_runs:
  "uncompress rle_zlib cap (0x78 # concat (replicate k [c, b]))
     = (if k * unat c \<le> cap then (Z_OK, replicate (k * unat c) b) else (Z_BUF_ERROR, []))"
  by (simp add: rle_zlib_def rle_decode_runs)

lemma rle_uncompress_run1:
  "uncompress rle_zlib cap [0x78, c, b]
     = (if unat c \<le> cap then (Z_OK, replicate (unat c) b) else (Z_BUF_ERROR, []))"
  by (simp add: rle_zlib_def)

lemma rle_contract: "zlib_contract rle_zlib"
  unfolding zlib_contract_def
proof (intro conjI allI impI)
  fix src :: "byte list" and cap
  assume "compressBound rle_zlib (length src) \<le> cap"
  then show "fst (compress rle_zlib cap src) = Z_OK"
    by (simp add: rle_zlib_def length_rle_encode)
next
  fix src :: "byte list" and cap z
  assume "compress rle_zlib cap src = (Z_OK, z)"
  then have z: "z = 0x78 # rle_encode src" "length z \<le> cap"
    by (auto simp: rle_zlib_def Let_def Z_codes_distinct split: if_splits)
  then show "z \<noteq> []" "length z \<le> cap" by simp_all
  from z show "decodes_to rle_zlib z src"
    by (simp add: rle_decodes rle_decode_encode)
qed

lemma zipData_rle:
  assumes "B \<noteq> []" and "length B < 2 ^ 62"
  shows "zipData LP64 rle_zlib (Some B)
           = (0x78 # rle_encode B,
              [CompressBound (length B), Compress (2 * length B + 1) B])"
  using assms
  by (simp add: zipData_def LP64_def rle_zlib_def to_uLong_def to_size_t_def
      length_rle_encode Z_OK_def Let_def)

lemma zipData_rle_123:
  "zipData LP64 rle_zlib (Some [1, 2, 3])
     = ([0x78, 1, 1, 1, 2, 1, 3], [CompressBound 3, Compress 7 [1, 2, 3]])"
  by (subst zipData_rle) (simp_all add: rle_encode_def)

lemma unzipData_rle_200:
  "unzipData LP64 rle_zlib (Some [0x78, 200, 7]) 0
     = Some (Inr (replicate 200 7,
                  map (\<lambda>k. Uncompress (21 * 2 ^ k) [0x78, 200, 7]) [0..<5]))"
proof -
  let ?z = "[0x78, 200, 7 :: byte]"
  have m: "max_size LP64 div 2 = 4611686018427387903" "uLong_bits LP64 = 64"
    by (simp_all add: LP64_def)
  note u = rle_uncompress_run1
  have "unzipData LP64 rle_zlib (Some ?z) 0 = map_option Inr (unzip_loop LP64 rle_zlib ?z 21 [])"
    by (rule unzipData_enter [where n = 3]) (simp_all add: firstSize_def LP64_def)
  also have "\<dots> = map_option Inr (unzip_loop LP64 rle_zlib ?z 42 [Uncompress 21 ?z])"
    by (subst unzip_loop_retry) (simp_all only: u m, simp_all)
  also have "\<dots> = map_option Inr (unzip_loop LP64 rle_zlib ?z 84 ([Uncompress 21 ?z] @ [Uncompress 42 ?z]))"
    by (subst unzip_loop_retry) (simp_all only: u m, simp_all)
  also have "\<dots> = map_option Inr (unzip_loop LP64 rle_zlib ?z 168
        (([Uncompress 21 ?z] @ [Uncompress 42 ?z]) @ [Uncompress 84 ?z]))"
    by (subst unzip_loop_retry) (simp_all only: u m, simp_all)
  also have "\<dots> = map_option Inr (unzip_loop LP64 rle_zlib ?z 336
        ((([Uncompress 21 ?z] @ [Uncompress 42 ?z]) @ [Uncompress 84 ?z]) @ [Uncompress 168 ?z]))"
    by (subst unzip_loop_retry) (simp_all only: u m, simp_all)
  also have "\<dots> = Some (Inr (replicate 200 7,
        (((([Uncompress 21 ?z] @ [Uncompress 42 ?z]) @ [Uncompress 84 ?z]) @ [Uncompress 168 ?z])
          @ [Uncompress 336 ?z])))"
    by (subst unzip_loop_stop [where ret = Z_OK and out = "replicate 200 7"])
       (simp_all only: u, simp_all add: Z_codes_distinct [symmetric])
  finally show ?thesis
    by (simp add: upt_rec numeral_eq_Suc)
qed

subsection \<open>The stream kept in memory\<close>

lemma join32_le:
  "(ucast (ucast v :: byte) :: 32 word) OR push_bit 8 (ucast (ucast (drop_bit 8 v) :: byte))
      OR push_bit 16 (ucast (ucast (drop_bit 16 v) :: byte))
      OR push_bit 24 (ucast (ucast (drop_bit 24 v) :: byte)) = (v :: 32 word)" (is "?lhs = _")
proof (rule bit_word_eqI)
  fix n assume "n < LENGTH(32)"
  then consider "n < 8" | "8 \<le> n" "n < 16" | "16 \<le> n" "n < 24" | "24 \<le> n" "n < 32"
    by fastforce
  then show "bit ?lhs n = bit v n"
    by cases (auto simp: bit_simps)
qed

lemma join32_be:
  "push_bit 24 (ucast (ucast (drop_bit 24 v) :: byte))
      OR push_bit 16 (ucast (ucast (drop_bit 16 v) :: byte))
      OR push_bit 8 (ucast (ucast (drop_bit 8 v) :: byte))
      OR (ucast (ucast v :: byte) :: 32 word) = (v :: 32 word)" (is "?lhs = _")
proof (rule bit_word_eqI)
  fix n assume "n < LENGTH(32)"
  then consider "n < 8" | "8 \<le> n" "n < 16" | "16 \<le> n" "n < 24" | "24 \<le> n" "n < 32"
    by fastforce
  then show "bit ?lhs n = bit v n"
    by cases (auto simp: bit_simps)
qed

lemma join16_le:
  "(ucast (ucast v :: byte) :: 16 word) OR push_bit 8 (ucast (ucast (drop_bit 8 v) :: byte))
     = (v :: 16 word)"
  by (rule bit_word_eqI) (auto simp: bit_simps)

lemma join16_be:
  "push_bit 8 (ucast (ucast (drop_bit 8 v) :: byte)) OR (ucast (ucast v :: byte) :: 16 word)
     = (v :: 16 word)"
  by (rule bit_word_eqI) (auto simp: bit_simps)

lemma length_bytes16 [simp]: "length (bytes16 be v) = 2"
  by (simp add: bytes16_def Let_def)

lemma length_bytes32 [simp]: "length (bytes32 be v) = 4"
  by (simp add: bytes32_def Let_def)

text \<open>Reading a field gives back the value that was written, in either byte order.\<close>

lemma mem_get32_record:
  "mem_get32 \<lparr>content = bytes32 be v @ rest, failed = f, bigEndian = be\<rparr>
     = (v, \<lparr>content = rest, failed = f, bigEndian = be\<rparr>)"
  by (cases be)
     (simp_all add: mem_get32_def mem_get8_def bytes32_def join32_le join32_be Let_def)

lemma mem_get16_record:
  "mem_get16 \<lparr>content = bytes16 be v @ rest, failed = f, bigEndian = be\<rparr>
     = (v, \<lparr>content = rest, failed = f, bigEndian = be\<rparr>)"
  by (cases be)
     (simp_all add: mem_get16_def mem_get8_def bytes16_def join16_le join16_be Let_def)

text \<open>\<open>unzipStream\<close> on a stream in memory that starts with a frame.\<close>

lemma unzipStream_mem:
  "unzipStream p Z memIStream OS
     \<lparr>content = bytes32 be rawSize @ bytes32 be zipSize @ bytes16 be version
                 @ bytes16 be reserved @ payload,
      failed = f, bigEndian = be\<rparr> t
   = (if zipSize = 0
      then Some (Inr (False, \<lparr>content = bytes16 be version @ bytes16 be reserved @ payload,
                              failed = f, bigEndian = be\<rparr>, t))
      else if version \<noteq> 0
      then Some (Inr (False, \<lparr>content = bytes16 be reserved @ payload,
                              failed = f, bigEndian = be\<rparr>, t))
      else
        (case unzipData p Z
                (Some (take (to_size_t p (unat zipSize)) payload
                       @ replicate (to_size_t p (unat zipSize) - length payload) 0))
                (to_size_t p (unat rawSize)) of
           None \<Rightarrow> None
         | Some (Inl e) \<Rightarrow> Some (Inl e)
         | Some (Inr (raw, calls)) \<Rightarrow>
             if length raw \<noteq> unat rawSize
             then Some (Inr (False, \<lparr>content = drop (to_size_t p (unat zipSize)) payload,
                                     failed = f, bigEndian = be\<rparr>, t))
             else Some (Inr (\<not> fail OS (putRaw OS raw t),
                             \<lparr>content = drop (to_size_t p (unat zipSize)) payload,
                              failed = f, bigEndian = be\<rparr>, putRaw OS raw t))))"
  by (simp add: Let_def unzipStream_def memIStream_def mem_get32_record mem_get16_record
      mem_skip_def mem_getRaw_def FORMAT_VERSION_0_def split: option.split sum.split)

text \<open>
  What \<open>zipStreamBuf\<close> writes when the compression gives a non-empty result, whatever the
  lengths: the two size fields hold the low 32 bits of the lengths (lines 168 and 169).
\<close>

lemma zipStreamBuf_writes:
  assumes "fst (zipData p Z src) = zipv" and "zipv \<noteq> []"
  shows "zipStreamBuf p Z OS src t =
           (let t' = putRaw OS zipv
                      (put16 OS 0
                        (put16 OS FORMAT_VERSION_0
                          (put32 OS (of_nat (length zipv))
                            (put32 OS (of_nat (buf_size src)) t))))
            in (\<not> fail OS t', t'))"
  using assms by (simp add: zipStreamBuf_def Let_def)

text \<open>
  A frame whose \<open>rawSize\<close> field exceeds \<open>max_size()\<close> makes line 52 throw, and nothing
  in \<open>unzipStream\<close> catches the exception.
\<close>

lemma unzipStream_length_error:
  assumes "get32 IS s = (rawSize, s1)" and "get32 IS s1 = (zipSize, s2)"
    and "get16 IS s2 = (version, s3)"
    and "getRaw IS (to_size_t p (unat zipSize)) (skip IS 2 s3) = (zipv, s5)"
    and "zipSize \<noteq> 0" and "version = 0"
    and "zipv \<noteq> []" and "length zipv < 2 ^ uLong_bits p"
    and "max_size p < to_size_t p (unat rawSize)"
  shows "unzipStream p Z IS OS s t = Some (Inl LengthError)"
  using assms
  by (simp add: unzipStream_def unzipData_def FORMAT_VERSION_0_def Let_def to_uLong_id)

section \<open>The claims\<close>

subsection \<open>C1: compressing and decompressing a buffer\<close>

text \<open>
  C1. For a library that honours its contract and a non-empty buffer \<open>B\<close> whose sizes pass
  the checks of the code, decompressing, with no size hint, what \<open>zipData\<close> made of \<open>B\<close>
  gives back exactly \<open>B\<close>. The sizes that pass are \<open>zip_fits\<close> for \<open>zipData\<close> and
  \<open>growth_fits\<close> for \<open>unzipData\<close>, given the length of the compressed bytes.
\<close>

theorem zipData_unzipData_roundtrip:
  assumes "zlib_contract Z" and "B \<noteq> []" and "zip_fits p Z (length B)"
    and "growth_fits p (length (fst (zipData p Z (Some B)))) (length B)"
  shows "\<exists>calls. unzipData p Z (Some (fst (zipData p Z (Some B)))) 0 = Some (Inr (B, calls))"
proof -
  from zipData_contract [OF assms(1-3)] obtain z
    where z: "fst (zipData p Z (Some B)) = z" "z \<noteq> []" "decodes_to Z z B"
    by auto
  from unzipData_decodes [OF z(3) z(2)] assms(4) z(1) show ?thesis
    by auto
qed

theorem zipData_unzipData_roundtrip_witness:
  "zlib_contract rle_zlib \<and> [1, 2, 3] \<noteq> ([] :: byte list)
   \<and> zip_fits LP64 rle_zlib (length [1, 2, 3 :: byte])
   \<and> growth_fits LP64 (length (fst (zipData LP64 rle_zlib (Some [1, 2, 3]))))
        (length [1, 2, 3 :: byte])
   \<and> (\<exists>calls. unzipData LP64 rle_zlib (Some (fst (zipData LP64 rle_zlib (Some [1, 2, 3])))) 0
         = Some (Inr ([1, 2, 3], calls)))"
proof -
  have f: "zip_fits LP64 rle_zlib (length [1, 2, 3 :: byte])"
    by (simp add: zip_fits_def LP64_def rle_zlib_def)
  have g: "growth_fits LP64 (length (fst (zipData LP64 rle_zlib (Some [1, 2, 3]))))
             (length [1, 2, 3 :: byte])"
    unfolding zipData_rle_123 by (simp add: growth_fits_def firstSize_def LP64_def)
  from zipData_unzipData_roundtrip [OF rle_contract _ f g] rle_contract f g show ?thesis
    by simp
qed

text \<open>
  Without the bound on the sizes the round trip fails. On 64-bit Windows a buffer of
  \<open>2 ^ 32\<close> bytes has a length that \<open>uLong\<close> cannot hold: line 110 makes \<open>zipData\<close> return an
  empty vector before the library is called, and decompressing that gives an empty vector.
\<close>

theorem zipData_unzipData_roundtrip_counterexample:
  "map_option (map_sum id fst)
     (unzipData LLP64 rle_zlib
        (Some (fst (zipData LLP64 rle_zlib (Some (replicate (2 ^ 32) 0))))) 0)
     \<noteq> Some (Inr (replicate (2 ^ 32) 0))"
proof -
  have "zipData LLP64 rle_zlib (Some (replicate (2 ^ 32) 0)) = ([], [])"
    by (simp add: zipData_def LLP64_def to_uLong_def)
  then have "unzipData LLP64 rle_zlib
               (Some (fst (zipData LLP64 rle_zlib (Some (replicate (2 ^ 32) 0))))) 0
               = Some (Inr ([], []))"
    by (simp add: unzipData_def)
  moreover have "replicate (2 ^ 32) (0 :: byte) \<noteq> []"
    by simp
  ultimately show ?thesis
    by simp
qed

subsection \<open>C2: writing a framed block and reading it back\<close>

text \<open>
  C2. Let the library honour its contract and let \<open>B\<close> be a non-empty buffer that a
  vector can hold (its length is at most \<open>max_size()\<close>) and that passes the size checks of
  \<open>zipData\<close>, with its length and the length of its compressed form both below \<open>2 ^ 32\<close>,
  the range of the two size fields. Then \<open>zipStreamBuf\<close> on a fresh stream
  in memory returns true, and \<open>unzipStream\<close> on the stream written reads all of it and
  appends exactly \<open>B\<close> to its output stream; it returns true when that stream reports no
  fault afterwards.
\<close>

theorem framing_roundtrip:
  assumes con: "zlib_contract Z" and ne: "B \<noteq> []" and fit: "zip_fits p Z (length B)"
    and b32: "length B < 2 ^ 32" and z32: "length (fst (zipData p Z (Some B))) < 2 ^ 32"
    and vec: "length B \<le> max_size p"
    and ok: "\<not> fail OS (putRaw OS B t)"
  shows "\<exists>s1. zipStreamBuf p Z memOStream (Some B) (freshStream be) = (True, s1)
            \<and> unzipStream p Z memIStream OS s1 t
                = Some (Inr (True, freshStream be, putRaw OS B t))"
proof -
  from zipData_contract [OF con ne fit] obtain z where
    z: "fst (zipData p Z (Some B)) = z" "z \<noteq> []" "length z \<le> compressBound Z (length B)"
       "decodes_to Z z B"
    by auto
  let ?s1 = "\<lparr>content = bytes32 be (of_nat (length B)) @ bytes32 be (of_nat (length z))
                 @ bytes16 be 0 @ bytes16 be 0 @ z, failed = False, bigEndian = be\<rparr>"
  from fit z(3) have lz: "length z < 2 ^ uLong_bits p" "length z < 2 ^ size_bits p"
      "length B < 2 ^ uLong_bits p" "length B < 2 ^ size_bits p"
    by (simp_all add: zip_fits_def)
  have w: "zipStreamBuf p Z memOStream (Some B) (freshStream be) = (True, ?s1)"
    using z(1,2) by (simp add: zipStreamBuf_def memOStream_def freshStream_def mem_put_def
        buf_size_def FORMAT_VERSION_0_def Let_def)
  have raw: "unzipData p Z (Some z) (length B) = Some (Inr (B, [Uncompress (length B) z]))"
    using z(4,2) lz(1) ne lz(3) vec by (rule unzipData_known_size)
  from z32 z(1) have z32': "length z < 2 ^ 32" by simp
  have u: "unat (of_nat (length z) :: 32 word) = length z"
      "unat (of_nat (length B) :: 32 word) = length B"
      "(of_nat (length z) :: 32 word) \<noteq> 0"
    using z32' b32 z(2) by (simp_all add: unat_of_nat_32 of_nat_32_eq_0)
  have c: "to_size_t p (length z) = length z" "to_size_t p (length B) = length B"
    using lz by (simp_all add: to_size_t_id)
  have r: "unzipStream p Z memIStream OS ?s1 t
             = Some (Inr (True, freshStream be, putRaw OS B t))"
    unfolding unzipStream_mem using ok raw by (simp add: u c freshStream_def)
  from w r show ?thesis by blast
qed

theorem framing_roundtrip_witness:
  "zlib_contract rle_zlib \<and> [1, 2, 3] \<noteq> ([] :: byte list)
   \<and> zip_fits LP64 rle_zlib (length [1, 2, 3 :: byte])
   \<and> length [1, 2, 3 :: byte] < 2 ^ 32
   \<and> length (fst (zipData LP64 rle_zlib (Some [1, 2, 3]))) < 2 ^ 32
   \<and> length [1, 2, 3 :: byte] \<le> max_size LP64
   \<and> \<not> fail memOStream (putRaw memOStream [1, 2, 3] (freshStream True))
   \<and> (\<exists>s1. zipStreamBuf LP64 rle_zlib memOStream (Some [1, 2, 3]) (freshStream True) = (True, s1)
          \<and> unzipStream LP64 rle_zlib memIStream memOStream s1 (freshStream True)
              = Some (Inr (True, freshStream True,
                           putRaw memOStream [1, 2, 3] (freshStream True))))
   \<and> putRaw memOStream [1, 2, 3] (freshStream True)
       = \<lparr>content = [1, 2, 3], failed = False, bigEndian = True\<rparr>"
proof -
  have f: "zip_fits LP64 rle_zlib (length [1, 2, 3 :: byte])"
    by (simp add: zip_fits_def LP64_def rle_zlib_def)
  have b: "length [1, 2, 3 :: byte] < 2 ^ 32"
    by simp
  have z: "length (fst (zipData LP64 rle_zlib (Some [1, 2, 3]))) < 2 ^ 32"
    by (simp add: zipData_rle_123)
  have v: "length [1, 2, 3 :: byte] \<le> max_size LP64"
    by (simp add: LP64_def)
  have o: "\<not> fail memOStream (putRaw memOStream [1, 2, 3] (freshStream True))"
     "putRaw memOStream [1, 2, 3] (freshStream True)
       = \<lparr>content = [1, 2, 3], failed = False, bigEndian = True\<rparr>"
    by (simp_all add: memOStream_def mem_put_def freshStream_def)
  from framing_roundtrip [OF rle_contract _ f b z v o(1), of True] rle_contract f b z v o
  show ?thesis
    by simp
qed

text \<open>
  A buffer of \<open>2 ^ 32\<close> bytes. On 64-bit Windows \<open>zipData\<close> rejects its length, and
  \<open>zipStreamBuf\<close> returns false. On 64-bit Linux \<open>zipStreamBuf\<close> returns true, but line
  168 keeps the low 32 bits of the length, so the first field of the frame is 0, and reading
  the frame back does not append the buffer to the output stream.
\<close>

theorem framing_roundtrip_counterexample:
  "\<not> fst (zipStreamBuf LLP64 rle_zlib memOStream (Some (replicate (2 ^ 32) 0))
           (freshStream False))
   \<and> fst (zipStreamBuf LP64 rle_zlib memOStream (Some (replicate (2 ^ 32) 0)) (freshStream False))
   \<and> take 4 (content (snd (zipStreamBuf LP64 rle_zlib memOStream (Some (replicate (2 ^ 32) 0))
          (freshStream False)))) = bytes32 False 0
   \<and> map_option (map_sum id (snd \<circ> snd))
        (unzipStream LP64 rle_zlib memIStream memOStream
          (snd (zipStreamBuf LP64 rle_zlib memOStream (Some (replicate (2 ^ 32) 0))
             (freshStream False)))
          (freshStream False))
       \<noteq> Some (Inr (putRaw memOStream (replicate (2 ^ 32) 0) (freshStream False)))"
proof -
  let ?B = "replicate (2 ^ 32) (0 :: byte)"
  let ?z = "0x78 # rle_encode ?B"
  let ?s1 = "\<lparr>content = bytes32 False 0 @ bytes32 False 1 @ bytes16 False 0 @ bytes16 False 0 @ ?z,
               failed = False, bigEndian = False\<rparr>"
  have zd: "fst (zipData LP64 rle_zlib (Some ?B)) = ?z"
    by (subst zipData_rle) simp_all
  have n: "(of_nat (buf_size (Some ?B)) :: 32 word) = 0" "(of_nat (length ?z) :: 32 word) = 1"
    by (simp_all add: length_rle_encode buf_size_def)
  have w: "zipStreamBuf LP64 rle_zlib memOStream (Some ?B) (freshStream False) = (True, ?s1)"
    unfolding zipStreamBuf_def zd Let_def n
    by (simp add: memOStream_def freshStream_def mem_put_def FORMAT_VERSION_0_def)
  have raw: "unzipData LP64 rle_zlib (Some [0x78]) 0 = Some (Inr ([], [Uncompress 7 [0x78]]))"
  proof -
    have "unzipData LP64 rle_zlib (Some [0x78]) 0 = map_option Inr (unzip_loop LP64 rle_zlib [0x78] 7 [])"
      by (rule unzipData_enter [where n = 1]) (simp_all add: firstSize_def LP64_def)
    also have "\<dots> = Some (Inr ([], [Uncompress 7 [0x78]]))"
      by (subst unzip_loop_stop [where ret = Z_OK and out = "[]"])
         (simp_all add: rle_zlib_def Z_codes_distinct [symmetric])
    finally show ?thesis .
  qed
  have c: "to_size_t LP64 (unat (1 :: 32 word)) = 1" "to_size_t LP64 (unat (0 :: 32 word)) = 0"
    by (simp_all add: to_size_t_def LP64_def)
  have "unzipStream LP64 rle_zlib memIStream memOStream ?s1 (freshStream False)
          = Some (Inr (True, \<lparr>content = rle_encode ?B, failed = False, bigEndian = False\<rparr>,
                       freshStream False))"
    unfolding unzipStream_mem c
    by (simp add: raw memOStream_def mem_put_def freshStream_def)
  moreover have "\<not> fst (zipStreamBuf LLP64 rle_zlib memOStream (Some ?B) (freshStream False))"
  proof -
    have "fst (zipData LLP64 rle_zlib (Some ?B)) = []"
      by (simp add: zipData_def LLP64_def to_uLong_def)
    then show ?thesis
      by (simp add: zipStreamBuf_def)
  qed
  ultimately show ?thesis
    unfolding w by (simp add: memOStream_def mem_put_def freshStream_def)
qed

subsection \<open>C3: growing the buffer beyond the first guess\<close>

text \<open>
  C3. Let \<open>z\<close> be a valid compressed stream for data \<open>d\<close> of more than seven times its
  length, and let twice the length of \<open>d\<close> exceed neither \<open>max_size()\<close> nor the range of
  \<open>uLong\<close>. Then \<open>unzipData\<close> with no size hint returns exactly \<open>d\<close>. Its first attempt
  uses a buffer of seven times the length of \<open>z\<close>, or of the length of \<open>z\<close> when that
  product exceeds \<open>max_size()\<close>; each further attempt uses twice the size of the one
  before, there is at least one further attempt, and the last attempt is the first whose
  buffer holds \<open>d\<close>.
\<close>

theorem unzipData_grows:
  assumes "decodes_to Z z d" and "z \<noteq> []" and "7 * length z < length d"
    and "2 * length d \<le> max_size p" and "2 * length d \<le> 2 ^ uLong_bits p"
  shows "\<exists>m. 0 < m
          \<and> unzipData p Z (Some z) 0
              = Some (Inr (d, map (\<lambda>k. Uncompress
                   ((if max_size p < 7 * length z then length z else 7 * length z) * 2 ^ k) z)
                   [0..<Suc m]))
          \<and> (if max_size p < 7 * length z then length z else 7 * length z) * 2 ^ (m - 1)
                < length d
          \<and> length d
                \<le> (if max_size p < 7 * length z then length z else 7 * length z) * 2 ^ m"
proof -
  have r0: "firstSize p (length z) 0
              = (if max_size p < 7 * length z then length z else 7 * length z)"
    by (auto simp: firstSize_def)
  have le: "firstSize p (length z) 0 \<le> 7 * length z"
    by (simp add: firstSize_def)
  with assms(3,5) have "growth_fits p (length z) (length d)"
    using assms(4) by (simp add: growth_fits_def)
  from unzipData_decodes [OF assms(1,2) this] obtain m where
    m: "unzipData p Z (Some z) 0
          = Some (Inr (d, map (\<lambda>k. Uncompress (firstSize p (length z) 0 * 2 ^ k) z)
                            [0..<Suc m]))"
       "length d \<le> firstSize p (length z) 0 * 2 ^ m"
       "\<forall>k<m. firstSize p (length z) 0 * 2 ^ k < length d"
    by blast
  from le m(2) assms(3) have pos: "0 < m"
    by (cases m) auto
  with m(3) have "firstSize p (length z) 0 * 2 ^ (m - 1) < length d"
    by simp
  with pos m(1,2) show ?thesis
    unfolding r0 by blast
qed

theorem unzipData_grows_witness:
  "decodes_to rle_zlib [0x78, 200, 7] (replicate 200 7)
   \<and> [0x78, 200, 7] \<noteq> ([] :: byte list)
   \<and> 7 * length [0x78, 200, 7 :: byte] < length (replicate 200 (7 :: byte))
   \<and> 2 * length (replicate 200 (7 :: byte)) \<le> max_size LP64
   \<and> 2 * length (replicate 200 (7 :: byte)) \<le> 2 ^ uLong_bits LP64
   \<and> (\<exists>m. 0 < m
          \<and> unzipData LP64 rle_zlib (Some [0x78, 200, 7]) 0
              = Some (Inr (replicate 200 7, map (\<lambda>k. Uncompress
                   ((if max_size LP64 < 7 * length [0x78, 200, 7 :: byte]
                     then length [0x78, 200, 7 :: byte]
                     else 7 * length [0x78, 200, 7 :: byte]) * 2 ^ k) [0x78, 200, 7])
                   [0..<Suc m]))
          \<and> (if max_size LP64 < 7 * length [0x78, 200, 7 :: byte]
               then length [0x78, 200, 7 :: byte]
               else 7 * length [0x78, 200, 7 :: byte]) * 2 ^ (m - 1)
                < length (replicate 200 (7 :: byte))
          \<and> length (replicate 200 (7 :: byte))
                \<le> (if max_size LP64 < 7 * length [0x78, 200, 7 :: byte]
                    then length [0x78, 200, 7 :: byte]
                    else 7 * length [0x78, 200, 7 :: byte]) * 2 ^ m)"
proof -
  have d: "decodes_to rle_zlib [0x78, 200, 7] (replicate 200 7)"
    by (rule rle_decodes) simp
  have l: "7 * length [0x78, 200, 7 :: byte] < length (replicate 200 (7 :: byte))"
    by simp
  have g: "2 * length (replicate 200 (7 :: byte)) \<le> max_size LP64"
      "2 * length (replicate 200 (7 :: byte)) \<le> 2 ^ uLong_bits LP64"
    by (simp_all add: LP64_def)
  from unzipData_grows [OF d _ l g] d l g show ?thesis
    by simp
qed

text \<open>
  Without the bound the buffer cannot always grow far enough. On 64-bit Windows, take a
  stream of 20000001 bytes that is valid for 2550000000 zero bytes. The attempts use
  140000007 bytes and then the double each time, up to 2240000112, which is still too
  small; the next double does not fit the 32 bits of \<open>uLong\<close>, and line 87 makes the
  function return an empty vector. On a 32-bit target, take a stream of 16000001 bytes
  that is valid for 2040000000 zero bytes, which a vector can hold. The attempts go up to
  1792000112 bytes, still too small, and more than half of \<open>max_size()\<close>: line 79 makes
  the function return an empty vector.
\<close>

theorem unzipData_grows_counterexample:
  "(decodes_to rle_zlib (0x78 # concat (replicate 10000000 [255, 0])) (replicate 2550000000 0)
    \<and> 7 * length (0x78 # concat (replicate 10000000 [255, 0 :: byte]))
         < length (replicate 2550000000 (0 :: byte))
    \<and> map_option (map_sum id fst)
         (unzipData LLP64 rle_zlib (Some (0x78 # concat (replicate 10000000 [255, 0]))) 0)
         = Some (Inr []))
   \<and> (decodes_to rle_zlib (0x78 # concat (replicate 8000000 [255, 0])) (replicate 2040000000 0)
    \<and> 7 * length (0x78 # concat (replicate 8000000 [255, 0 :: byte]))
         < length (replicate 2040000000 (0 :: byte))
    \<and> length (replicate 2040000000 (0 :: byte)) \<le> max_size ILP32
    \<and> map_option (map_sum id fst)
         (unzipData ILP32 rle_zlib (Some (0x78 # concat (replicate 8000000 [255, 0]))) 0)
         = Some (Inr []))"
proof -
  have windows: "decodes_to rle_zlib (0x78 # concat (replicate 10000000 [255, 0])) (replicate 2550000000 0)
       \<and> 7 * length (0x78 # concat (replicate 10000000 [255, 0 :: byte]))
            < length (replicate 2550000000 (0 :: byte))
       \<and> map_option (map_sum id fst)
            (unzipData LLP64 rle_zlib (Some (0x78 # concat (replicate 10000000 [255, 0]))) 0)
            = Some (Inr [])"
  proof -
    let ?z = "0x78 # concat (replicate 10000000 [255, 0 :: byte])"
    have len: "length ?z = 20000001"
      by (simp add: length_concat sum_list_replicate)
    have dec: "decodes_to rle_zlib ?z (replicate 2550000000 0)"
      using rle_decodes [OF rle_decode_runs [of 10000000 255 0]] by simp
    have u: "uncompress rle_zlib cap ?z
               = (if 2550000000 \<le> cap then (Z_OK, replicate 2550000000 0)
                  else (Z_BUF_ERROR, []))" for cap
      using rle_uncompress_runs [of cap 10000000 255 0] by simp
    have m: "max_size LLP64 div 2 = 4611686018427387903" "uLong_bits LLP64 = 32"
      by (simp_all add: LLP64_def)
    have "unzipData LLP64 rle_zlib (Some ?z) 0 = map_option Inr (unzip_loop LLP64 rle_zlib ?z 140000007 [])"
      by (rule unzipData_enter [OF len]) (simp_all add: firstSize_def LLP64_def)
    also have "\<dots> = map_option Inr (unzip_loop LLP64 rle_zlib ?z 280000014 [Uncompress 140000007 ?z])"
      by (subst unzip_loop_retry) (simp_all only: u m, simp_all)
    also have "\<dots> = map_option Inr (unzip_loop LLP64 rle_zlib ?z 560000028
          ([Uncompress 140000007 ?z] @ [Uncompress 280000014 ?z]))"
      by (subst unzip_loop_retry) (simp_all only: u m, simp_all)
    also have "\<dots> = map_option Inr (unzip_loop LLP64 rle_zlib ?z 1120000056
          (([Uncompress 140000007 ?z] @ [Uncompress 280000014 ?z]) @ [Uncompress 560000028 ?z]))"
      by (subst unzip_loop_retry) (simp_all only: u m, simp_all)
    also have "\<dots> = map_option Inr (unzip_loop LLP64 rle_zlib ?z 2240000112
          ((([Uncompress 140000007 ?z] @ [Uncompress 280000014 ?z]) @ [Uncompress 560000028 ?z])
             @ [Uncompress 1120000056 ?z]))"
      by (subst unzip_loop_retry) (simp_all only: u m, simp_all)
    also have "\<dots> = Some (Inr ([],
          (((([Uncompress 140000007 ?z] @ [Uncompress 280000014 ?z]) @ [Uncompress 560000028 ?z])
             @ [Uncompress 1120000056 ?z]) @ [Uncompress 2240000112 ?z])))"
      by (subst unzip_loop_stop [where ret = Z_BUF_ERROR and out = "[]"])
         (simp_all only: u m to_uLong_def, simp_all add: Z_codes_distinct)
    finally have "map_option (map_sum id fst) (unzipData LLP64 rle_zlib (Some ?z) 0) = Some (Inr [])"
      by simp
    with dec len show ?thesis
      by simp
  qed
  have small: "decodes_to rle_zlib (0x78 # concat (replicate 8000000 [255, 0])) (replicate 2040000000 0)
       \<and> 7 * length (0x78 # concat (replicate 8000000 [255, 0 :: byte]))
            < length (replicate 2040000000 (0 :: byte))
       \<and> length (replicate 2040000000 (0 :: byte)) \<le> max_size ILP32
       \<and> map_option (map_sum id fst)
            (unzipData ILP32 rle_zlib (Some (0x78 # concat (replicate 8000000 [255, 0]))) 0)
            = Some (Inr [])"
  proof -
    let ?z = "0x78 # concat (replicate 8000000 [255, 0 :: byte])"
    have len: "length ?z = 16000001"
      by (simp add: length_concat sum_list_replicate)
    have dec: "decodes_to rle_zlib ?z (replicate 2040000000 0)"
      using rle_decodes [OF rle_decode_runs [of 8000000 255 0]] by simp
    have u: "uncompress rle_zlib cap ?z
               = (if 2040000000 \<le> cap then (Z_OK, replicate 2040000000 0)
                  else (Z_BUF_ERROR, []))" for cap
      using rle_uncompress_runs [of cap 8000000 255 0] by simp
    have m: "max_size ILP32 div 2 = 1073741823" "uLong_bits ILP32 = 32"
      by (simp_all add: ILP32_def)
    have "unzipData ILP32 rle_zlib (Some ?z) 0 = map_option Inr (unzip_loop ILP32 rle_zlib ?z 112000007 [])"
      by (rule unzipData_enter [OF len]) (simp_all add: firstSize_def ILP32_def)
    also have "\<dots> = map_option Inr (unzip_loop ILP32 rle_zlib ?z 224000014 [Uncompress 112000007 ?z])"
      by (subst unzip_loop_retry) (simp_all only: u m, simp_all)
    also have "\<dots> = map_option Inr (unzip_loop ILP32 rle_zlib ?z 448000028
          ([Uncompress 112000007 ?z] @ [Uncompress 224000014 ?z]))"
      by (subst unzip_loop_retry) (simp_all only: u m, simp_all)
    also have "\<dots> = map_option Inr (unzip_loop ILP32 rle_zlib ?z 896000056
          (([Uncompress 112000007 ?z] @ [Uncompress 224000014 ?z]) @ [Uncompress 448000028 ?z]))"
      by (subst unzip_loop_retry) (simp_all only: u m, simp_all)
    also have "\<dots> = map_option Inr (unzip_loop ILP32 rle_zlib ?z 1792000112
          ((([Uncompress 112000007 ?z] @ [Uncompress 224000014 ?z]) @ [Uncompress 448000028 ?z])
             @ [Uncompress 896000056 ?z]))"
      by (subst unzip_loop_retry) (simp_all only: u m, simp_all)
    also have "\<dots> = Some (Inr ([],
          (((([Uncompress 112000007 ?z] @ [Uncompress 224000014 ?z]) @ [Uncompress 448000028 ?z])
             @ [Uncompress 896000056 ?z]) @ [Uncompress 1792000112 ?z])))"
      by (subst unzip_loop_stop [where ret = Z_BUF_ERROR and out = "[]"])
         (simp_all only: u m, simp_all add: Z_codes_distinct)
    finally have "map_option (map_sum id fst) (unzipData ILP32 rle_zlib (Some ?z) 0) = Some (Inr [])"
      by simp
    with dec len show ?thesis
      by (simp add: ILP32_def)
  qed
  from windows small show ?thesis
    by (rule conjI)
qed

subsection \<open>C4: frames that \<open>unzipStream\<close> rejects\<close>

text \<open>
  C4. The claim is that \<open>unzipStream\<close> returns false whenever the \<open>zipSize\<close> field is 0,
  the \<open>version\<close> field is not 0, or the length of the decompressed bytes differs from the
  \<open>rawSize\<close> field. The last part fails where \<open>max_size()\<close> is below the range of the
  32-bit field. Take the little-endian frame with \<open>rawSize = 2 ^ 31\<close>, \<open>zipSize = 3\<close>,
  version 0 and a payload of 3 bytes that is a valid stream for 2 bytes. On a 32-bit target
  \<open>unzipData\<close> is asked for a vector of \<open>2 ^ 31\<close> bytes, line 52 throws
  \<open>std::length_error\<close>, and \<open>unzipStream\<close> does not return false: the exception leaves
  it. On 64-bit Linux the same frame is rejected with false, the 2 decompressed bytes being
  fewer than \<open>rawSize\<close>.
\<close>

theorem unzipStream_throws:
  "uncompress rle_zlib 2 [0x78, 2, 9] = (Z_OK, [9, 9])
   \<and> length [9, 9 :: byte] \<noteq> unat (0x80000000 :: 32 word)
   \<and> unzipStream ILP32 rle_zlib memIStream memOStream
         \<lparr>content = [0, 0, 0, 0x80, 3, 0, 0, 0, 0, 0, 0, 0, 0x78, 2, 9],
           failed = False, bigEndian = False\<rparr> (freshStream False)
       = Some (Inl LengthError)
   \<and> unzipStream LP64 rle_zlib memIStream memOStream
         \<lparr>content = [0, 0, 0, 0x80, 3, 0, 0, 0, 0, 0, 0, 0, 0x78, 2, 9],
           failed = False, bigEndian = False\<rparr> (freshStream False)
       = Some (Inr (False, \<lparr>content = [], failed = False, bigEndian = False\<rparr>,
                    freshStream False))"
proof -
  let ?s = "\<lparr>content = [0, 0, 0, 0x80, 3, 0, 0, 0, 0, 0, 0, 0, 0x78, 2, 9 :: byte],
             failed = False, bigEndian = False\<rparr>"
  have r2: "replicate 2 (9 :: byte) = [9, 9]"
    by (simp add: numeral_2_eq_2)
  have dec: "uncompress rle_zlib 2 [0x78, 2, 9] = (Z_OK, [9, 9])"
    by (simp add: rle_uncompress_run1 r2)
  have a: "get32 memIStream ?s
       = (0x80000000, \<lparr>content = [3, 0, 0, 0, 0, 0, 0, 0, 0x78, 2, 9],
                        failed = False, bigEndian = False\<rparr>)"
    by (simp add: memIStream_def mem_get32_def mem_get8_def)
  have b: "get32 memIStream \<lparr>content = [3, 0, 0, 0, 0, 0, 0, 0, 0x78, 2, 9],
                      failed = False, bigEndian = False\<rparr>
       = (3, \<lparr>content = [0, 0, 0, 0, 0x78, 2, 9], failed = False, bigEndian = False\<rparr>)"
    by (simp add: memIStream_def mem_get32_def mem_get8_def)
  have c: "get16 memIStream \<lparr>content = [0, 0, 0, 0, 0x78, 2, 9], failed = False, bigEndian = False\<rparr>
       = (0, \<lparr>content = [0, 0, 0x78, 2, 9], failed = False, bigEndian = False\<rparr>)"
    by (simp add: memIStream_def mem_get16_def mem_get8_def)
  have d: "getRaw memIStream (to_size_t p (unat (3 :: 32 word)))
        (skip memIStream 2 \<lparr>content = [0, 0, 0x78, 2, 9], failed = False, bigEndian = False\<rparr>)
       = ([0x78, 2, 9], \<lparr>content = [], failed = False, bigEndian = False\<rparr>)"
    if "p = ILP32 \<or> p = LP64" for p
    using that
    by (auto simp: memIStream_def mem_getRaw_def mem_skip_def to_size_t_def ILP32_def LP64_def)
  have small: "unzipStream ILP32 rle_zlib memIStream memOStream ?s (freshStream False)
                 = Some (Inl LengthError)"
    by (rule unzipStream_length_error [OF a b c d])
       (simp_all add: ILP32_def to_size_t_def)
  have s: "to_size_t LP64 (unat (0x80000000 :: 32 word)) = 2147483648"
    by (simp add: to_size_t_def LP64_def)
  have e: "unzipData LP64 rle_zlib (Some [0x78, 2, 9]) (to_size_t LP64 (unat (0x80000000 :: 32 word)))
       = Some (Inr ([9, 9], [Uncompress 2147483648 [0x78, 2, 9]]))"
  proof -
    have "unzipData LP64 rle_zlib (Some [0x78, 2, 9]) 2147483648
            = map_option Inr (unzip_loop LP64 rle_zlib [0x78, 2, 9] 2147483648 [])"
      by (rule unzipData_enter [where n = 3]) (simp_all add: firstSize_def LP64_def)
    also have "\<dots> = Some (Inr ([9, 9], [Uncompress 2147483648 [0x78, 2, 9]]))"
      by (subst unzip_loop_stop [where ret = Z_OK and out = "[9, 9]"])
         (simp_all add: rle_uncompress_run1 Z_codes_distinct [symmetric] r2)
    finally show ?thesis
      unfolding s .
  qed
  have wide: "unzipStream LP64 rle_zlib memIStream memOStream ?s (freshStream False)
                = Some (Inr (False, \<lparr>content = [], failed = False, bigEndian = False\<rparr>,
                             freshStream False))"
    using a b c d [of LP64] e by (simp add: unzipStream_def FORMAT_VERSION_0_def)
  from dec small wide show ?thesis
    by simp
qed

text \<open>
  The rest of the claim holds on every target: whenever \<open>unzipData\<close> returns, which it does
  for every \<open>rawSize\<close> up to \<open>max_size()\<close> (lemma \<open>unzipData_returns\<close>), each of the three
  conditions leads to a return of false, and the output stream is as it was.
\<close>

lemma unzipStream_rejects:
  assumes "get32 IS s = (rawSize, s1)" and "get32 IS s1 = (zipSize, s2)"
    and "get16 IS s2 = (version, s3)"
    and "getRaw IS (to_size_t p (unat zipSize)) (skip IS 2 s3) = (zipv, s5)"
    and "unzipData p Z (Some zipv) (to_size_t p (unat rawSize)) = Some (Inr (raw, calls))"
    and "zipSize = 0 \<or> version \<noteq> 0 \<or> length raw \<noteq> unat rawSize"
  shows "\<exists>s'. unzipStream p Z IS OS s t = Some (Inr (False, s', t))"
  using assms by (auto simp: unzipStream_def FORMAT_VERSION_0_def Let_def)

text \<open>
  Three frames on a stream in memory: one whose decompressed length, 2, differs from its
  \<open>rawSize\<close> field, 5; one whose \<open>zipSize\<close> field is 0; and a big-endian one whose
  \<open>version\<close> field is 1.
\<close>

lemma unzipStream_rejects_frames:
  "(get32 memIStream \<lparr>content = [5, 0, 0, 0, 3, 0, 0, 0, 0, 0, 0, 0, 0x78, 2, 9],
                       failed = False, bigEndian = False\<rparr>
      = (5, \<lparr>content = [3, 0, 0, 0, 0, 0, 0, 0, 0x78, 2, 9], failed = False, bigEndian = False\<rparr>)
    \<and> get32 memIStream \<lparr>content = [3, 0, 0, 0, 0, 0, 0, 0, 0x78, 2, 9],
                       failed = False, bigEndian = False\<rparr>
      = (3, \<lparr>content = [0, 0, 0, 0, 0x78, 2, 9], failed = False, bigEndian = False\<rparr>)
    \<and> get16 memIStream \<lparr>content = [0, 0, 0, 0, 0x78, 2, 9], failed = False, bigEndian = False\<rparr>
      = (0, \<lparr>content = [0, 0, 0x78, 2, 9], failed = False, bigEndian = False\<rparr>)
    \<and> getRaw memIStream (to_size_t LP64 (unat (3 :: 32 word)))
         (skip memIStream 2 \<lparr>content = [0, 0, 0x78, 2, 9], failed = False, bigEndian = False\<rparr>)
      = ([0x78, 2, 9], \<lparr>content = [], failed = False, bigEndian = False\<rparr>)
    \<and> unzipData LP64 rle_zlib (Some [0x78, 2, 9]) (to_size_t LP64 (unat (5 :: 32 word)))
      = Some (Inr ([9, 9], [Uncompress 5 [0x78, 2, 9]]))
    \<and> ((3 :: 32 word) = 0 \<or> (0 :: 16 word) \<noteq> 0 \<or> length [9, 9 :: byte] \<noteq> unat (5 :: 32 word))
    \<and> (\<exists>s'. unzipStream LP64 rle_zlib memIStream memOStream
                \<lparr>content = [5, 0, 0, 0, 3, 0, 0, 0, 0, 0, 0, 0, 0x78, 2, 9],
                  failed = False, bigEndian = False\<rparr> (freshStream False)
              = Some (Inr (False, s', freshStream False))))
   \<and> (get32 memIStream \<lparr>content = [5, 0, 0, 0, 0, 0, 0, 0, 0, 0, 0, 0, 0x78, 2, 9],
                       failed = False, bigEndian = False\<rparr>
      = (5, \<lparr>content = [0, 0, 0, 0, 0, 0, 0, 0, 0x78, 2, 9], failed = False, bigEndian = False\<rparr>)
    \<and> get32 memIStream \<lparr>content = [0, 0, 0, 0, 0, 0, 0, 0, 0x78, 2, 9],
                       failed = False, bigEndian = False\<rparr>
      = (0, \<lparr>content = [0, 0, 0, 0, 0x78, 2, 9], failed = False, bigEndian = False\<rparr>)
    \<and> (\<exists>s'. unzipStream LP64 rle_zlib memIStream memOStream
                \<lparr>content = [5, 0, 0, 0, 0, 0, 0, 0, 0, 0, 0, 0, 0x78, 2, 9],
                  failed = False, bigEndian = False\<rparr> (freshStream False)
              = Some (Inr (False, s', freshStream False)))
    \<and> get16 memIStream \<lparr>content = [0, 1, 0, 0, 0x78, 2, 9], failed = False, bigEndian = True\<rparr>
      = (1, \<lparr>content = [0, 0, 0x78, 2, 9], failed = False, bigEndian = True\<rparr>)
    \<and> (\<exists>s'. unzipStream LP64 rle_zlib memIStream memOStream
                \<lparr>content = [0, 0, 0, 2, 0, 0, 0, 3, 0, 1, 0, 0, 0x78, 2, 9],
                  failed = False, bigEndian = True\<rparr> (freshStream False)
              = Some (Inr (False, s', freshStream False))))"
proof -
  have mismatch: "get32 memIStream \<lparr>content = [5, 0, 0, 0, 3, 0, 0, 0, 0, 0, 0, 0, 0x78, 2, 9],
                          failed = False, bigEndian = False\<rparr>
         = (5, \<lparr>content = [3, 0, 0, 0, 0, 0, 0, 0, 0x78, 2, 9], failed = False, bigEndian = False\<rparr>)
       \<and> get32 memIStream \<lparr>content = [3, 0, 0, 0, 0, 0, 0, 0, 0x78, 2, 9],
                          failed = False, bigEndian = False\<rparr>
         = (3, \<lparr>content = [0, 0, 0, 0, 0x78, 2, 9], failed = False, bigEndian = False\<rparr>)
       \<and> get16 memIStream \<lparr>content = [0, 0, 0, 0, 0x78, 2, 9], failed = False, bigEndian = False\<rparr>
         = (0, \<lparr>content = [0, 0, 0x78, 2, 9], failed = False, bigEndian = False\<rparr>)
       \<and> getRaw memIStream (to_size_t LP64 (unat (3 :: 32 word)))
            (skip memIStream 2 \<lparr>content = [0, 0, 0x78, 2, 9], failed = False, bigEndian = False\<rparr>)
         = ([0x78, 2, 9], \<lparr>content = [], failed = False, bigEndian = False\<rparr>)
       \<and> unzipData LP64 rle_zlib (Some [0x78, 2, 9]) (to_size_t LP64 (unat (5 :: 32 word)))
         = Some (Inr ([9, 9], [Uncompress 5 [0x78, 2, 9]]))
       \<and> ((3 :: 32 word) = 0 \<or> (0 :: 16 word) \<noteq> 0 \<or> length [9, 9 :: byte] \<noteq> unat (5 :: 32 word))
       \<and> (\<exists>s'. unzipStream LP64 rle_zlib memIStream memOStream
                   \<lparr>content = [5, 0, 0, 0, 3, 0, 0, 0, 0, 0, 0, 0, 0x78, 2, 9],
                     failed = False, bigEndian = False\<rparr> (freshStream False)
                 = Some (Inr (False, s', freshStream False)))"
  proof -
    have a: "get32 memIStream \<lparr>content = [5, 0, 0, 0, 3, 0, 0, 0, 0, 0, 0, 0, 0x78, 2, 9],
                        failed = False, bigEndian = False\<rparr>
       = (5, \<lparr>content = [3, 0, 0, 0, 0, 0, 0, 0, 0x78, 2, 9], failed = False, bigEndian = False\<rparr>)"
      by (simp add: memIStream_def mem_get32_def mem_get8_def)
    have b: "get32 memIStream \<lparr>content = [3, 0, 0, 0, 0, 0, 0, 0, 0x78, 2, 9],
                        failed = False, bigEndian = False\<rparr>
       = (3, \<lparr>content = [0, 0, 0, 0, 0x78, 2, 9], failed = False, bigEndian = False\<rparr>)"
      by (simp add: memIStream_def mem_get32_def mem_get8_def)
    have c: "get16 memIStream \<lparr>content = [0, 0, 0, 0, 0x78, 2, 9], failed = False, bigEndian = False\<rparr>
       = (0, \<lparr>content = [0, 0, 0x78, 2, 9], failed = False, bigEndian = False\<rparr>)"
      by (simp add: memIStream_def mem_get16_def mem_get8_def)
    have d: "getRaw memIStream (to_size_t LP64 (unat (3 :: 32 word)))
          (skip memIStream 2 \<lparr>content = [0, 0, 0x78, 2, 9], failed = False, bigEndian = False\<rparr>)
       = ([0x78, 2, 9], \<lparr>content = [], failed = False, bigEndian = False\<rparr>)"
      by (simp add: memIStream_def mem_getRaw_def mem_skip_def to_size_t_def LP64_def)
    have s: "to_size_t LP64 (unat (5 :: 32 word)) = 5"
      by (simp add: to_size_t_def LP64_def)
    have r2: "replicate 2 (9 :: byte) = [9, 9]"
      by (simp add: numeral_2_eq_2)
    have e: "unzipData LP64 rle_zlib (Some [0x78, 2, 9]) (to_size_t LP64 (unat (5 :: 32 word)))
       = Some (Inr ([9, 9], [Uncompress 5 [0x78, 2, 9]]))"
    proof -
      have "unzipData LP64 rle_zlib (Some [0x78, 2, 9]) 5 = map_option Inr (unzip_loop LP64 rle_zlib [0x78, 2, 9] 5 [])"
        by (rule unzipData_enter [where n = 3]) (simp_all add: firstSize_def LP64_def)
      also have "\<dots> = Some (Inr ([9, 9], [Uncompress 5 [0x78, 2, 9]]))"
        by (subst unzip_loop_stop [where ret = Z_OK and out = "[9, 9]"])
           (simp_all add: rle_uncompress_run1 Z_codes_distinct [symmetric] r2)
      finally show ?thesis
        unfolding s .
    qed
    have g: "(3 :: 32 word) = 0 \<or> (0 :: 16 word) \<noteq> 0 \<or> length [9, 9 :: byte] \<noteq> unat (5 :: 32 word)"
      by simp
    from unzipStream_rejects [OF a b c d e g, of memOStream "freshStream False"] a b c d e g
    show ?thesis
      by simp
  qed
  have others: "get32 memIStream \<lparr>content = [5, 0, 0, 0, 0, 0, 0, 0, 0, 0, 0, 0, 0x78, 2, 9],
                          failed = False, bigEndian = False\<rparr>
         = (5, \<lparr>content = [0, 0, 0, 0, 0, 0, 0, 0, 0x78, 2, 9], failed = False, bigEndian = False\<rparr>)
       \<and> get32 memIStream \<lparr>content = [0, 0, 0, 0, 0, 0, 0, 0, 0x78, 2, 9],
                          failed = False, bigEndian = False\<rparr>
         = (0, \<lparr>content = [0, 0, 0, 0, 0x78, 2, 9], failed = False, bigEndian = False\<rparr>)
       \<and> (\<exists>s'. unzipStream LP64 rle_zlib memIStream memOStream
                   \<lparr>content = [5, 0, 0, 0, 0, 0, 0, 0, 0, 0, 0, 0, 0x78, 2, 9],
                     failed = False, bigEndian = False\<rparr> (freshStream False)
                 = Some (Inr (False, s', freshStream False)))
       \<and> get16 memIStream \<lparr>content = [0, 1, 0, 0, 0x78, 2, 9], failed = False, bigEndian = True\<rparr>
         = (1, \<lparr>content = [0, 0, 0x78, 2, 9], failed = False, bigEndian = True\<rparr>)
       \<and> (\<exists>s'. unzipStream LP64 rle_zlib memIStream memOStream
                   \<lparr>content = [0, 0, 0, 2, 0, 0, 0, 3, 0, 1, 0, 0, 0x78, 2, 9],
                     failed = False, bigEndian = True\<rparr> (freshStream False)
                 = Some (Inr (False, s', freshStream False)))"
  proof -
    let ?t = "freshStream False"
    have s: "to_size_t LP64 (unat (5 :: 32 word)) = 5" "to_size_t LP64 (unat (0 :: 32 word)) = 0"
        "to_size_t LP64 (unat (2 :: 32 word)) = 2" "to_size_t LP64 (unat (3 :: 32 word)) = 3"
      by (simp_all add: to_size_t_def LP64_def)
    have r2: "replicate 2 (9 :: byte) = [9, 9]"
      by (simp add: numeral_2_eq_2)
    \<comment> \<open>a frame whose \<open>zipSize\<close> field is 0\<close>
    have a1: "get32 memIStream \<lparr>content = [5, 0, 0, 0, 0, 0, 0, 0, 0, 0, 0, 0, 0x78, 2, 9],
                        failed = False, bigEndian = False\<rparr>
       = (5, \<lparr>content = [0, 0, 0, 0, 0, 0, 0, 0, 0x78, 2, 9], failed = False, bigEndian = False\<rparr>)"
      by (simp add: memIStream_def mem_get32_def mem_get8_def)
    have b1: "get32 memIStream \<lparr>content = [0, 0, 0, 0, 0, 0, 0, 0, 0x78, 2, 9],
                        failed = False, bigEndian = False\<rparr>
       = (0, \<lparr>content = [0, 0, 0, 0, 0x78, 2, 9], failed = False, bigEndian = False\<rparr>)"
      by (simp add: memIStream_def mem_get32_def mem_get8_def)
    have c1: "get16 memIStream \<lparr>content = [0, 0, 0, 0, 0x78, 2, 9], failed = False, bigEndian = False\<rparr>
       = (0, \<lparr>content = [0, 0, 0x78, 2, 9], failed = False, bigEndian = False\<rparr>)"
      by (simp add: memIStream_def mem_get16_def mem_get8_def)
    have d1: "getRaw memIStream (to_size_t LP64 (unat (0 :: 32 word)))
          (skip memIStream 2 \<lparr>content = [0, 0, 0x78, 2, 9], failed = False, bigEndian = False\<rparr>)
       = ([], \<lparr>content = [0x78, 2, 9], failed = False, bigEndian = False\<rparr>)"
      unfolding s by (simp add: memIStream_def mem_getRaw_def mem_skip_def)
    have e1: "unzipData LP64 rle_zlib (Some []) (to_size_t LP64 (unat (5 :: 32 word))) = Some (Inr ([], []))"
      by (simp add: unzipData_def)
    have g1: "(0 :: 32 word) = 0 \<or> (0 :: 16 word) \<noteq> 0 \<or> length ([] :: byte list) \<noteq> unat (5 :: 32 word)"
      by simp
    note w1 = unzipStream_rejects [OF a1 b1 c1 d1 e1 g1, of memOStream ?t]
    \<comment> \<open>a big-endian frame whose \<open>version\<close> field is 1\<close>
    have a2: "get32 memIStream \<lparr>content = [0, 0, 0, 2, 0, 0, 0, 3, 0, 1, 0, 0, 0x78, 2, 9],
                        failed = False, bigEndian = True\<rparr>
       = (2, \<lparr>content = [0, 0, 0, 3, 0, 1, 0, 0, 0x78, 2, 9], failed = False, bigEndian = True\<rparr>)"
      by (simp add: memIStream_def mem_get32_def mem_get8_def)
    have b2: "get32 memIStream \<lparr>content = [0, 0, 0, 3, 0, 1, 0, 0, 0x78, 2, 9],
                        failed = False, bigEndian = True\<rparr>
       = (3, \<lparr>content = [0, 1, 0, 0, 0x78, 2, 9], failed = False, bigEndian = True\<rparr>)"
      by (simp add: memIStream_def mem_get32_def mem_get8_def)
    have c2: "get16 memIStream \<lparr>content = [0, 1, 0, 0, 0x78, 2, 9], failed = False, bigEndian = True\<rparr>
       = (1, \<lparr>content = [0, 0, 0x78, 2, 9], failed = False, bigEndian = True\<rparr>)"
      by (simp add: memIStream_def mem_get16_def mem_get8_def)
    have d2: "getRaw memIStream (to_size_t LP64 (unat (3 :: 32 word)))
          (skip memIStream 2 \<lparr>content = [0, 0, 0x78, 2, 9], failed = False, bigEndian = True\<rparr>)
       = ([0x78, 2, 9], \<lparr>content = [], failed = False, bigEndian = True\<rparr>)"
      unfolding s by (simp add: memIStream_def mem_getRaw_def mem_skip_def)
    have e2: "unzipData LP64 rle_zlib (Some [0x78, 2, 9]) (to_size_t LP64 (unat (2 :: 32 word)))
       = Some (Inr ([9, 9], [Uncompress 2 [0x78, 2, 9]]))"
    proof -
      have "decodes_to rle_zlib [0x78, 2, 9] [9, 9]"
        by (rule rle_decodes) (simp add: r2)
      then have "unzipData LP64 rle_zlib (Some [0x78, 2, 9]) (length [9, 9 :: byte])
                   = Some (Inr ([9, 9], [Uncompress (length [9, 9 :: byte]) [0x78, 2, 9]]))"
        by (rule unzipData_known_size) (simp_all add: LP64_def)
      then show ?thesis
        unfolding s by (simp add: numeral_2_eq_2)
    qed
    have g2: "(3 :: 32 word) = 0 \<or> (1 :: 16 word) \<noteq> 0 \<or> length [9, 9 :: byte] \<noteq> unat (2 :: 32 word)"
      by simp
    note w2 = unzipStream_rejects [OF a2 b2 c2 d2 e2 g2, of memOStream ?t]
    from a1 b1 w1 c2 w2 show ?thesis
      by simp
  qed
  from mismatch others show ?thesis
    by (rule conjI)
qed

subsection \<open>C5: decoding an image\<close>

text \<open>
  C5. Let the library honour its contract, and let \<open>D\<close> be a buffer whose sizes pass the
  checks of \<open>zipData\<close> and \<open>unzipData\<close> (\<open>zip_fits\<close> and \<open>growth_fits\<close>). Let \<open>width\<close> and
  \<open>height\<close> be positive with \<open>width * height\<close> equal to the length of \<open>D\<close>, for a single
  layer, or to half of it, the length being even, for a double layer. Then
  \<open>CreateImageFromZlib\<close> on the compressed \<open>D\<close> returns an image of that width and height.
  For a single layer its colour plane is \<open>D\<close> and the transform layer is disabled; for a
  double layer its colour plane is the first half of \<open>D\<close> and its transform plane the
  second half.
\<close>

theorem CreateImageFromZlib_decodes:
  assumes con: "zlib_contract Z" and fit: "zip_fits p Z (length D)"
    and grow: "growth_fits p (length (fst (zipData p Z (Some D)))) (length D)"
    and w: "0 < sint width" and h: "0 < sint height"
    and size: "nat (sint width) * nat (sint height)
                 = (if doubleLayer then length D div 2 else length D)"
    and even: "doubleLayer \<longrightarrow> even (length D)"
  shows "CreateImageFromZlib p Z width height (Some (fst (zipData p Z (Some D)))) doubleLayer
           = Some (Inr \<lparr>img_width = width, img_height = height,
                   img_image = (if doubleLayer then take (length D div 2) D else D),
                   img_transform = (if doubleLayer then drop (length D div 2) D else []),
                   img_singleLayer = (\<not> doubleLayer)\<rparr>)"
proof -
  let ?n = "nat (sint width) * nat (sint height)"
  from w h have npos: "0 < ?n" by simp
  with size have ne: "D \<noteq> []" by (auto split: if_splits)
  from zipData_contract [OF con ne fit] obtain z where
    z: "fst (zipData p Z (Some D)) = z" "z \<noteq> []" "decodes_to Z z D"
    by auto
  from unzipData_decodes [OF z(3) z(2)] grow z(1) obtain calls where
    u: "unzipData p Z (Some z) 0 = Some (Inr (D, calls))"
    by auto
  from size have "?n \<le> length D" by (auto split: if_splits)
  with fit have c: "to_size_t p ?n = ?n"
    by (intro to_size_t_id) (simp add: zip_fits_def)
  have pix: "pixels p width height = ?n"
    by (simp add: pixels_def c)
  show ?thesis
  proof (cases doubleLayer)
    case False
    with size have n: "?n = length D" by simp
    from False w h z(2) show ?thesis
      unfolding z(1)
      by (simp add: CreateImageFromZlib_def buf_size_def u c n [symmetric] Let_def resize_def
          pix memcpy_def emptyImage_def disableTransformLayer_def)
  next
    case True
    with size even have n: "length D div 2 = ?n" "length D = 2 * ?n" "length D mod 2 = 0"
      by auto
    from True w h z(2) show ?thesis
      unfolding z(1)
      by (simp add: CreateImageFromZlib_def buf_size_def u c n Let_def resize_def
          pix memcpy_def emptyImage_def)
  qed
qed

lemma zipData_rle_12:
  "zipData LP64 rle_zlib (Some [1, 2, 3, 4, 5, 6, 7, 8, 9, 10, 11, 12])
     = (0x78 # rle_encode [1, 2, 3, 4, 5, 6, 7, 8, 9, 10, 11, 12],
        [CompressBound 12, Compress 25 [1, 2, 3, 4, 5, 6, 7, 8, 9, 10, 11, 12]])"
  by (subst zipData_rle) simp_all

lemma zipData_rle_8:
  "zipData LP64 rle_zlib (Some [1, 2, 3, 4, 5, 6, 7, 8])
     = (0x78 # rle_encode [1, 2, 3, 4, 5, 6, 7, 8],
        [CompressBound 8, Compress 17 [1, 2, 3, 4, 5, 6, 7, 8]])"
  by (subst zipData_rle) simp_all

theorem CreateImageFromZlib_decodes_witness:
  "zlib_contract rle_zlib
   \<and> zip_fits LP64 rle_zlib (length [1, 2, 3, 4, 5, 6, 7, 8, 9, 10, 11, 12 :: byte])
   \<and> growth_fits LP64 (length (fst (zipData LP64 rle_zlib (Some [1, 2, 3, 4, 5, 6, 7, 8, 9, 10, 11, 12]))))
        (length [1, 2, 3, 4, 5, 6, 7, 8, 9, 10, 11, 12 :: byte])
   \<and> 0 < sint (4 :: 32 word) \<and> 0 < sint (3 :: 32 word)
   \<and> nat (sint (4 :: 32 word)) * nat (sint (3 :: 32 word))
        = length [1, 2, 3, 4, 5, 6, 7, 8, 9, 10, 11, 12 :: byte]
   \<and> CreateImageFromZlib LP64 rle_zlib 4 3
        (Some (fst (zipData LP64 rle_zlib (Some [1, 2, 3, 4, 5, 6, 7, 8, 9, 10, 11, 12])))) False
       = Some (Inr \<lparr>img_width = 4, img_height = 3,
               img_image = [1, 2, 3, 4, 5, 6, 7, 8, 9, 10, 11, 12],
               img_transform = [], img_singleLayer = True\<rparr>)
   \<and> zip_fits LP64 rle_zlib (length [1, 2, 3, 4, 5, 6, 7, 8 :: byte])
   \<and> growth_fits LP64 (length (fst (zipData LP64 rle_zlib (Some [1, 2, 3, 4, 5, 6, 7, 8]))))
        (length [1, 2, 3, 4, 5, 6, 7, 8 :: byte])
   \<and> 0 < sint (2 :: 32 word)
   \<and> nat (sint (2 :: 32 word)) * nat (sint (2 :: 32 word))
        = length [1, 2, 3, 4, 5, 6, 7, 8 :: byte] div 2
   \<and> even (length [1, 2, 3, 4, 5, 6, 7, 8 :: byte])
   \<and> CreateImageFromZlib LP64 rle_zlib 2 2
        (Some (fst (zipData LP64 rle_zlib (Some [1, 2, 3, 4, 5, 6, 7, 8])))) True
       = Some (Inr \<lparr>img_width = 2, img_height = 2,
               img_image = [1, 2, 3, 4], img_transform = [5, 6, 7, 8],
               img_singleLayer = False\<rparr>)"
proof -
  have f12: "zip_fits LP64 rle_zlib (length [1, 2, 3, 4, 5, 6, 7, 8, 9, 10, 11, 12 :: byte])"
    and f8: "zip_fits LP64 rle_zlib (length [1, 2, 3, 4, 5, 6, 7, 8 :: byte])"
    by (simp_all add: zip_fits_def LP64_def rle_zlib_def)
  have g12: "growth_fits LP64 (length (fst (zipData LP64 rle_zlib (Some [1, 2, 3, 4, 5, 6, 7, 8, 9, 10, 11, 12]))))
        (length [1, 2, 3, 4, 5, 6, 7, 8, 9, 10, 11, 12 :: byte])"
    unfolding zipData_rle_12
    by (simp add: growth_fits_def firstSize_def LP64_def length_rle_encode)
  have g8: "growth_fits LP64 (length (fst (zipData LP64 rle_zlib (Some [1, 2, 3, 4, 5, 6, 7, 8]))))
        (length [1, 2, 3, 4, 5, 6, 7, 8 :: byte])"
    unfolding zipData_rle_8
    by (simp add: growth_fits_def firstSize_def LP64_def length_rle_encode)
  have d: "0 < sint (4 :: 32 word)" "0 < sint (3 :: 32 word)" "0 < sint (2 :: 32 word)"
    by simp_all
  have s12: "nat (sint (4 :: 32 word)) * nat (sint (3 :: 32 word))
        = (if False then length [1, 2, 3, 4, 5, 6, 7, 8, 9, 10, 11, 12 :: byte] div 2
           else length [1, 2, 3, 4, 5, 6, 7, 8, 9, 10, 11, 12 :: byte])"
    by simp
  have s8: "nat (sint (2 :: 32 word)) * nat (sint (2 :: 32 word))
        = (if True then length [1, 2, 3, 4, 5, 6, 7, 8 :: byte] div 2
           else length [1, 2, 3, 4, 5, 6, 7, 8 :: byte])"
    by simp
  have e8: "True \<longrightarrow> even (length [1, 2, 3, 4, 5, 6, 7, 8 :: byte])"
    by simp
  have i12: "CreateImageFromZlib LP64 rle_zlib 4 3
        (Some (fst (zipData LP64 rle_zlib (Some [1, 2, 3, 4, 5, 6, 7, 8, 9, 10, 11, 12])))) False
       = Some (Inr \<lparr>img_width = 4, img_height = 3,
               img_image = [1, 2, 3, 4, 5, 6, 7, 8, 9, 10, 11, 12],
               img_transform = [], img_singleLayer = True\<rparr>)"
    using CreateImageFromZlib_decodes [OF rle_contract f12 g12 d(1,2) s12] by simp
  have i8: "CreateImageFromZlib LP64 rle_zlib 2 2
        (Some (fst (zipData LP64 rle_zlib (Some [1, 2, 3, 4, 5, 6, 7, 8])))) True
       = Some (Inr \<lparr>img_width = 2, img_height = 2,
               img_image = [1, 2, 3, 4], img_transform = [5, 6, 7, 8],
               img_singleLayer = False\<rparr>)"
    using CreateImageFromZlib_decodes [OF rle_contract f8 g8 d(3,3) s8 e8] by simp
  from rle_contract f12 g12 d s12 i12 f8 g8 s8 e8 i8 show ?thesis
    by simp
qed

text \<open>
  Without the bound on the sizes: on 64-bit Windows an image of 65536 by 65536 pixels has
  \<open>2 ^ 32\<close> bytes, \<open>zipData\<close> returns an empty vector for them (line 110), and
  \<open>CreateImageFromZlib\<close> returns the default image, whose width is 0. Without positive
  dimensions: the product of \<open>-2\<close> and \<open>-3\<close> is the length of a buffer of 6 bytes, and
  line 179 returns the default image.
\<close>

theorem CreateImageFromZlib_decodes_counterexample:
  "(sint (65536 :: 32 word) * sint (65536 :: 32 word) = int (length (replicate (2 ^ 32) (0 :: byte)))
    \<and> CreateImageFromZlib LLP64 rle_zlib 65536 65536
         (Some (fst (zipData LLP64 rle_zlib (Some (replicate (2 ^ 32) 0))))) False
        = Some (Inr emptyImage)
    \<and> img_width emptyImage \<noteq> 65536)
   \<and> (sint (- 2 :: 32 word) * sint (- 3 :: 32 word) = int (length [1, 2, 3, 4, 5, 6 :: byte])
      \<and> CreateImageFromZlib LP64 rle_zlib (- 2) (- 3)
           (Some (fst (zipData LP64 rle_zlib (Some [1, 2, 3, 4, 5, 6])))) False
          = Some (Inr emptyImage)
      \<and> img_width emptyImage \<noteq> - 2)"
proof -
  have large: "sint (65536 :: 32 word) * sint (65536 :: 32 word) = int (length (replicate (2 ^ 32) (0 :: byte)))
       \<and> CreateImageFromZlib LLP64 rle_zlib 65536 65536
            (Some (fst (zipData LLP64 rle_zlib (Some (replicate (2 ^ 32) 0))))) False
           = Some (Inr emptyImage)
       \<and> img_width emptyImage \<noteq> 65536"
  proof -
    have "zipData LLP64 rle_zlib (Some (replicate (2 ^ 32) 0)) = ([], [])"
      by (simp add: zipData_def LLP64_def to_uLong_def)
    then show ?thesis
      by (simp add: CreateImageFromZlib_def buf_size_def emptyImage_def)
  qed
  have negative: "sint (- 2 :: 32 word) * sint (- 3 :: 32 word)
        = int (length [1, 2, 3, 4, 5, 6 :: byte])
      \<and> CreateImageFromZlib LP64 rle_zlib (- 2) (- 3)
           (Some (fst (zipData LP64 rle_zlib (Some [1, 2, 3, 4, 5, 6])))) False
          = Some (Inr emptyImage)
      \<and> img_width emptyImage \<noteq> - 2"
    by (simp add: CreateImageFromZlib_def emptyImage_def)
  from large negative show ?thesis
    by (rule conjI)
qed

subsection \<open>C6: images that \<open>CreateImageFromZlib\<close> rejects\<close>

text \<open>
  C6. The claim is that the default image is returned whenever the input is null or empty,
  a dimension is not positive, the decompressed length is odd for a double layer, or
  \<open>width * height\<close> differs from the size of a plane. The last part fails where \<open>size_t\<close> has
  32 bits: line 190 takes the product in \<open>size_t\<close>, and \<open>65536 * 65536\<close> wraps to 0. With
  two bytes that are no valid stream, \<open>unzipData\<close> returns an empty vector, the size of a
  plane is 0, the wrapped product equals it, and the function returns an image of 65536 by
  65536 pixels with no pixel data, where the product, \<open>2 ^ 32\<close>, differs from 0.
\<close>

theorem CreateImageFromZlib_wraps:
  "unzipData ILP32 rle_zlib (Some [0xFF, 0xFF]) 0 = Some (Inr ([], [Uncompress 14 [0xFF, 0xFF]]))
   \<and> CreateImageFromZlib ILP32 rle_zlib 65536 65536 (Some [0xFF, 0xFF]) False
       = Some (Inr \<lparr>img_width = 65536, img_height = 65536, img_image = [], img_transform = [],
               img_singleLayer = True\<rparr>)
   \<and> CreateImageFromZlib ILP32 rle_zlib 65536 65536 (Some [0xFF, 0xFF]) False \<noteq> Some (Inr emptyImage)"
proof -
  have u: "unzipData ILP32 rle_zlib (Some [0xFF, 0xFF]) 0 = Some (Inr ([], [Uncompress 14 [0xFF, 0xFF]]))"
  proof -
    have "unzipData ILP32 rle_zlib (Some [0xFF, 0xFF]) 0 = map_option Inr (unzip_loop ILP32 rle_zlib [0xFF, 0xFF] 14 [])"
      by (rule unzipData_enter [where n = 2]) (simp_all add: firstSize_def ILP32_def)
    also have "\<dots> = Some (Inr ([], [Uncompress 14 [0xFF, 0xFF]]))"
      by (subst unzip_loop_stop [where ret = Z_DATA_ERROR and out = "[]"])
         (simp_all add: rle_zlib_def Z_DATA_ERROR_def Z_BUF_ERROR_def Z_OK_def)
    finally show ?thesis .
  qed
  have c: "to_size_t ILP32 4294967296 = 0"
    by (simp add: to_size_t_def ILP32_def)
  have "CreateImageFromZlib ILP32 rle_zlib 65536 65536 (Some [0xFF, 0xFF]) False
       = Some (Inr \<lparr>img_width = 65536, img_height = 65536, img_image = [], img_transform = [],
               img_singleLayer = True\<rparr>)"
    by (simp add: CreateImageFromZlib_def buf_size_def u c Let_def resize_def pixels_def
        memcpy_def emptyImage_def disableTransformLayer_def)
  with u show ?thesis
    by (simp add: emptyImage_def)
qed

text \<open>
  The other rejections hold on every target, and where \<open>size_t\<close> has at least 62 bits the
  product of two positive \<open>int32_t\<close> values cannot wrap, so that the last one holds too.
\<close>

lemma sint32_product_bound:
  fixes w h :: "32 word"
  assumes "0 < sint w" and "0 < sint h"
  shows "nat (sint w) * nat (sint h) < 2 ^ 62"
proof -
  have "sint w < 2 ^ 31" "sint h < 2 ^ 31"
    using sint_lt [of w] sint_lt [of h] by simp_all
  with assms have "nat (sint w) < 2 ^ 31" "nat (sint h) < 2 ^ 31"
    by simp_all
  then have "nat (sint w) * nat (sint h) < 2 ^ 31 * 2 ^ 31"
    by (intro mult_strict_mono) simp_all
  then show ?thesis by simp
qed

lemma CreateImageFromZlib_rejects:
  assumes u: "unzipData p Z imageData 0 = Some (Inr (uncompressedData, calls))"
    and bad: "imageData = None \<or> imageData = Some [] \<or> sint width \<le> 0 \<or> sint height \<le> 0
       \<or> (doubleLayer \<and> odd (length uncompressedData))
       \<or> (62 \<le> size_bits p
           \<and> nat (sint width) * nat (sint height)
                \<noteq> (if doubleLayer then length uncompressedData div 2
                    else length uncompressedData))"
  shows "CreateImageFromZlib p Z width height imageData doubleLayer = Some (Inr emptyImage)"
proof (cases "imageData = None \<or> buf_size imageData = 0 \<or> sint width \<le> 0 \<or> sint height \<le> 0")
  case True
  then show ?thesis by (simp add: CreateImageFromZlib_def)
next
  case False
  then have pos: "0 < sint width" "0 < sint height" by simp_all
  have c: "to_size_t p (nat (sint width) * nat (sint height))
             = nat (sint width) * nat (sint height)" if wide: "62 \<le> size_bits p"
  proof -
    have "(2 :: nat) ^ 62 \<le> 2 ^ size_bits p"
      using wide by (intro power_increasing) simp_all
    with sint32_product_bound [OF pos] show ?thesis
      by (intro to_size_t_id) simp
  qed
  from False bad u show ?thesis
    by (auto simp: CreateImageFromZlib_def c buf_size_def Let_def odd_iff_mod_2_eq_one
        split: option.splits)
qed


subsection \<open>C7: what \<open>zipStreamBuf\<close> writes\<close>

text \<open>
  C7. When the compression gives a non-empty result, and the length of the source and the
  length of the compressed bytes are both below \<open>2 ^ 32\<close>, \<open>zipStreamBuf\<close> writes to the
  output stream, in this order: a 32-bit field whose value is the length of the source, a
  32-bit field whose value is the length of the compressed bytes, the format version 0 as a
  16-bit field, a 16-bit field that is 0, and the compressed bytes. It returns false
  exactly when the stream reports a fault after these writes. This holds for every stream
  class; on the stream in memory the bytes appended are those of the table of section 6 of
  the spec: the two lengths at offsets 0 and 4, the version at offset 8, the reserved field
  at offset 10 and the payload from offset 12.
\<close>

theorem zipStreamBuf_layout:
  assumes "fst (zipData p Z src) = zipv" and "zipv \<noteq> []"
    and "buf_size src < 2 ^ 32" and "length zipv < 2 ^ 32"
  shows "\<exists>rawField zipField :: 32 word.
           unat rawField = buf_size src \<and> unat zipField = length zipv
         \<and> zipStreamBuf p Z OS src t =
             (let t' = putRaw OS zipv
                        (put16 OS 0
                          (put16 OS FORMAT_VERSION_0
                            (put32 OS zipField
                              (put32 OS rawField t))))
              in (\<not> fail OS t', t'))
         \<and> zipStreamBuf p Z memOStream src s =
             (\<not> failed s,
              s\<lparr>content := content s
                    @ bytes32 (bigEndian s) rawField
                    @ bytes32 (bigEndian s) zipField
                    @ bytes16 (bigEndian s) FORMAT_VERSION_0
                    @ bytes16 (bigEndian s) 0
                    @ zipv\<rparr>)"
proof (intro exI conjI)
  show "unat (of_nat (buf_size src) :: 32 word) = buf_size src"
    using assms(3) by (rule unat_of_nat_32)
  show "unat (of_nat (length zipv) :: 32 word) = length zipv"
    using assms(4) by (rule unat_of_nat_32)
  show "zipStreamBuf p Z OS src t =
          (let t' = putRaw OS zipv
                     (put16 OS 0
                       (put16 OS FORMAT_VERSION_0
                         (put32 OS (of_nat (length zipv))
                           (put32 OS (of_nat (buf_size src)) t))))
           in (\<not> fail OS t', t'))"
    using assms(1,2) by (rule zipStreamBuf_writes)
  show "zipStreamBuf p Z memOStream src s =
          (\<not> failed s,
           s\<lparr>content := content s
                 @ bytes32 (bigEndian s) (of_nat (buf_size src))
                 @ bytes32 (bigEndian s) (of_nat (length zipv))
                 @ bytes16 (bigEndian s) FORMAT_VERSION_0
                 @ bytes16 (bigEndian s) 0
                 @ zipv\<rparr>)"
    unfolding zipStreamBuf_writes [OF assms(1,2)]
    by (simp add: Let_def memOStream_def mem_put_def)
qed

text \<open>
  Three bytes on a fresh little-endian stream in memory, and 300 bytes on a fresh
  big-endian one, where both lengths need two bytes of their fields.
\<close>

theorem zipStreamBuf_layout_witness:
  "(fst (zipData LP64 rle_zlib (Some [1, 2, 3])) = [0x78, 1, 1, 1, 2, 1, 3]
    \<and> [0x78, 1, 1, 1, 2, 1, 3] \<noteq> ([] :: byte list)
    \<and> buf_size (Some [1, 2, 3]) < 2 ^ 32
    \<and> length [0x78, 1, 1, 1, 2, 1, 3 :: byte] < 2 ^ 32
    \<and> zipStreamBuf LP64 rle_zlib memOStream (Some [1, 2, 3]) (freshStream False)
        = (True, \<lparr>content = [3, 0, 0, 0, 7, 0, 0, 0, 0, 0, 0, 0, 0x78, 1, 1, 1, 2, 1, 3],
                  failed = False, bigEndian = False\<rparr>))
   \<and> (fst (zipData LP64 rle_zlib (Some (replicate 300 5))) = 0x78 # rle_encode (replicate 300 5)
    \<and> 0x78 # rle_encode (replicate 300 5) \<noteq> []
    \<and> buf_size (Some (replicate 300 5)) < 2 ^ 32
    \<and> length (0x78 # rle_encode (replicate 300 5)) < 2 ^ 32
    \<and> zipStreamBuf LP64 rle_zlib memOStream (Some (replicate 300 5)) (freshStream True)
        = (True, \<lparr>content = [0, 0, 1, 44, 0, 0, 2, 89, 0, 0, 0, 0]
                              @ 0x78 # rle_encode (replicate 300 5),
                  failed = False, bigEndian = True\<rparr>))"
proof -
  have small: "fst (zipData LP64 rle_zlib (Some [1, 2, 3])) = [0x78, 1, 1, 1, 2, 1, 3]
    \<and> [0x78, 1, 1, 1, 2, 1, 3] \<noteq> ([] :: byte list)
    \<and> buf_size (Some [1, 2, 3]) < 2 ^ 32
    \<and> length [0x78, 1, 1, 1, 2, 1, 3 :: byte] < 2 ^ 32
    \<and> zipStreamBuf LP64 rle_zlib memOStream (Some [1, 2, 3]) (freshStream False)
        = (True, \<lparr>content = [3, 0, 0, 0, 7, 0, 0, 0, 0, 0, 0, 0, 0x78, 1, 1, 1, 2, 1, 3],
                  failed = False, bigEndian = False\<rparr>)"
  proof -
    have z: "fst (zipData LP64 rle_zlib (Some [1, 2, 3])) = [0x78, 1, 1, 1, 2, 1, 3]"
      by (simp add: zipData_rle_123)
    have n: "[0x78, 1, 1, 1, 2, 1, 3] \<noteq> ([] :: byte list)"
      by simp
    have b: "buf_size (Some [1, 2, 3 :: byte]) < 2 ^ 32"
      "length [0x78, 1, 1, 1, 2, 1, 3 :: byte] < 2 ^ 32"
      by (simp_all add: buf_size_def)
    from zipStreamBuf_layout [OF z n b, where s = "freshStream False" and OS = memOStream
        and t = "freshStream False"]
    obtain rawField zipField :: "32 word" where
      f: "unat rawField = buf_size (Some [1, 2, 3 :: byte])"
         "unat zipField = length [0x78, 1, 1, 1, 2, 1, 3 :: byte]"
      and w: "zipStreamBuf LP64 rle_zlib memOStream (Some [1, 2, 3]) (freshStream False) =
             (\<not> failed (freshStream False),
              (freshStream False)\<lparr>content := content (freshStream False)
                    @ bytes32 (bigEndian (freshStream False)) rawField
                    @ bytes32 (bigEndian (freshStream False)) zipField
                    @ bytes16 (bigEndian (freshStream False)) FORMAT_VERSION_0
                    @ bytes16 (bigEndian (freshStream False)) 0
                    @ [0x78, 1, 1, 1, 2, 1, 3]\<rparr>)"
      by blast
    from f have "rawField = 3" "zipField = 7"
      by (simp_all add: word_unat_eq_iff buf_size_def)
    with w z b show ?thesis
      by (simp add: freshStream_def bytes32_def bytes16_def FORMAT_VERSION_0_def)
  qed
  have large: "fst (zipData LP64 rle_zlib (Some (replicate 300 5))) = 0x78 # rle_encode (replicate 300 5)
    \<and> 0x78 # rle_encode (replicate 300 5) \<noteq> []
    \<and> buf_size (Some (replicate 300 5)) < 2 ^ 32
    \<and> length (0x78 # rle_encode (replicate 300 5)) < 2 ^ 32
    \<and> zipStreamBuf LP64 rle_zlib memOStream (Some (replicate 300 5)) (freshStream True)
        = (True, \<lparr>content = [0, 0, 1, 44, 0, 0, 2, 89, 0, 0, 0, 0]
                              @ 0x78 # rle_encode (replicate 300 5),
                  failed = False, bigEndian = True\<rparr>)"
  proof -
    let ?B = "replicate 300 (5 :: byte)"
    let ?z = "0x78 # rle_encode ?B"
    have z: "fst (zipData LP64 rle_zlib (Some ?B)) = ?z"
      by (subst zipData_rle) simp_all
    have n: "?z \<noteq> []"
      by simp
    have b: "buf_size (Some ?B) < 2 ^ 32" "length ?z < 2 ^ 32"
      by (simp_all add: buf_size_def length_rle_encode)
    from zipStreamBuf_layout [OF z n b, where s = "freshStream True" and OS = memOStream
        and t = "freshStream True"]
    obtain rawField zipField :: "32 word" where
      f: "unat rawField = buf_size (Some ?B)" "unat zipField = length ?z"
      and w: "zipStreamBuf LP64 rle_zlib memOStream (Some ?B) (freshStream True) =
             (\<not> failed (freshStream True),
              (freshStream True)\<lparr>content := content (freshStream True)
                    @ bytes32 (bigEndian (freshStream True)) rawField
                    @ bytes32 (bigEndian (freshStream True)) zipField
                    @ bytes16 (bigEndian (freshStream True)) FORMAT_VERSION_0
                    @ bytes16 (bigEndian (freshStream True)) 0
                    @ ?z\<rparr>)"
      by blast
    from f have v: "rawField = 300" "zipField = 601"
      by (simp_all add: word_unat_eq_iff buf_size_def length_rle_encode)
    have "bytes32 True (300 :: 32 word) = [0, 0, 1, 44]" "bytes32 True (601 :: 32 word) = [0, 0, 2, 89]"
      "bytes16 True (0 :: 16 word) = [0, 0]"
      by (simp_all add: bytes32_def bytes16_def)
    with w z n b show ?thesis
      unfolding v by (simp add: freshStream_def FORMAT_VERSION_0_def)
  qed
  from small large show ?thesis
    by (rule conjI)
qed

text \<open>
  Without the bound on the lengths the fields do not hold the lengths. On 64-bit Linux,
  for a buffer of \<open>2 ^ 32 + 5\<close> bytes, whose compressed form has \<open>2 ^ 33 + 11\<close> bytes,
  \<open>zipStreamBuf\<close> returns true, and the two size fields of the frame hold 5 and 11: lines
  168 and 169 keep the low 32 bits of each length.
\<close>

theorem zipStreamBuf_layout_counterexample:
  "fst (zipStreamBuf LP64 rle_zlib memOStream (Some (replicate (2 ^ 32 + 5) 7))
          (freshStream False))
   \<and> take 8 (content (snd (zipStreamBuf LP64 rle_zlib memOStream
                (Some (replicate (2 ^ 32 + 5) 7)) (freshStream False))))
       = [5, 0, 0, 0, 11, 0, 0, 0]
   \<and> buf_size (Some (replicate (2 ^ 32 + 5) (7 :: byte))) = 4294967301
   \<and> length (fst (zipData LP64 rle_zlib (Some (replicate (2 ^ 32 + 5) 7)))) = 8589934603"
proof -
  let ?B = "replicate (2 ^ 32 + 5) (7 :: byte)"
  let ?z = "0x78 # rle_encode ?B"
  have zd: "fst (zipData LP64 rle_zlib (Some ?B)) = ?z"
    by (subst zipData_rle) simp_all
  have l: "buf_size (Some ?B) = 4294967301" "length ?z = 8589934603"
    by (simp_all add: length_rle_encode buf_size_def)
  have n: "(of_nat (buf_size (Some ?B)) :: 32 word) = 5" "(of_nat (length ?z) :: 32 word) = 11"
    unfolding l by simp_all
  have f: "bytes32 False (5 :: 32 word) = [5, 0, 0, 0]" "bytes32 False (11 :: 32 word) = [11, 0, 0, 0]"
    by (simp_all add: bytes32_def)
  have "zipStreamBuf LP64 rle_zlib memOStream (Some ?B) (freshStream False)
          = (True, \<lparr>content = [5, 0, 0, 0] @ [11, 0, 0, 0] @ bytes16 False 0 @ bytes16 False 0 @ ?z,
                    failed = False, bigEndian = False\<rparr>)"
    unfolding zipStreamBuf_writes [OF zd list.distinct(2)] Let_def n
    by (simp add: memOStream_def freshStream_def mem_put_def FORMAT_VERSION_0_def f)
  with l zd show ?thesis
    by simp
qed

subsection \<open>C8: the retry loop ends\<close>

text \<open>
  C8. \<open>unzipData\<close> ends for every input and every behaviour of the library, and the retry
  loop is left after finitely many attempts. The loop is not entered, and the result is
  empty, when the source is null or empty or its length is no value of \<open>uLong\<close>; the
  exception of line 52 leaves the function when the size it is given exceeds \<open>max_size()\<close>;
  and the result is empty again when the first buffer size is no value of \<open>uLong\<close>.
  Otherwise at least one attempt is made. The buffer sizes of the attempts are \<open>r\<close>, \<open>2 r\<close>,
  \<open>4 r\<close>, and so on, for the positive first size \<open>r\<close>: each attempt but the last reported a
  buffer too small and had its size doubled (\<open>retried\<close>). After the last attempt the loop
  was left as \<open>exit_ok\<close> says, in one of four ways: with the output of the library when it
  succeeded; with an empty vector when it returned another error; with an empty vector
  when the doubled size would exceed \<open>max_size()\<close>; and with an empty vector when the
  doubled size is no value of \<open>uLong\<close>.
\<close>

theorem unzipData_terminates:
  "(case src of
      None \<Rightarrow> unzipData p Z src realSize = Some (Inr ([], []))
    | Some bs \<Rightarrow>
        if bs = [] \<or> 2 ^ uLong_bits p \<le> length bs
        then unzipData p Z src realSize = Some (Inr ([], []))
        else if max_size p < realSize
        then unzipData p Z src realSize = Some (Inl LengthError)
        else if 2 ^ uLong_bits p \<le> firstSize p (length bs) realSize
        then unzipData p Z src realSize = Some (Inr ([], []))
        else 0 < firstSize p (length bs) realSize
           \<and> (\<exists>res m. 0 < m
                \<and> unzipData p Z src realSize
                    = Some (Inr (res, map (\<lambda>k. Uncompress (firstSize p (length bs) realSize * 2 ^ k) bs)
                                       [0..<m]))
                \<and> (\<forall>k. Suc k < m \<longrightarrow> retried p Z bs (firstSize p (length bs) realSize * 2 ^ k))
                \<and> exit_ok p Z bs (firstSize p (length bs) realSize * 2 ^ (m - 1)) res))"
proof (cases src)
  case None
  then show ?thesis by (simp add: unzipData_def)
next
  case (Some bs)
  let ?r = "firstSize p (length bs) realSize"
  consider "bs = [] \<or> 2 ^ uLong_bits p \<le> length bs"
    | "bs \<noteq> []" "length bs < 2 ^ uLong_bits p" "max_size p < realSize"
    | "bs \<noteq> []" "length bs < 2 ^ uLong_bits p" "realSize \<le> max_size p" "2 ^ uLong_bits p \<le> ?r"
    | "bs \<noteq> []" "length bs < 2 ^ uLong_bits p" "realSize \<le> max_size p" "?r < 2 ^ uLong_bits p"
    by fastforce
  then show ?thesis
  proof cases
    case 1
    then have "bs = [] \<or> to_uLong p (length bs) \<noteq> length bs"
      by (auto dest: to_uLong_big)
    with 1 Some show ?thesis
      by (auto simp: unzipData_def Let_def)
  next
    case 2
    then have "unzipData p Z (Some bs) realSize = Some (Inl LengthError)"
      by (simp add: unzipData_def Let_def to_uLong_id)
    with 2 Some show ?thesis by simp
  next
    case 3
    then have "to_uLong p ?r \<noteq> ?r"
      by (intro to_uLong_big) simp
    with 3 have "unzipData p Z (Some bs) realSize = Some (Inr ([], []))"
      by (simp add: unzipData_def Let_def to_uLong_id)
    with 3 Some show ?thesis by simp
  next
    case 4
    from 4(1) have pos: "0 < ?r"
      by (simp add: firstSize_def)
    from 4 have "unzipData p Z (Some bs) realSize = map_option Inr (unzip_loop p Z bs ?r [])"
      by (intro unzipData_enter [OF refl]) simp_all
    with unzip_loop_run [OF pos, of p Z bs "[]"] obtain res m where
      "0 < m"
      "unzipData p Z (Some bs) realSize
         = Some (Inr (res, map (\<lambda>k. Uncompress (?r * 2 ^ k) bs) [0..<m]))"
      "\<forall>k. Suc k < m \<longrightarrow> retried p Z bs (?r * 2 ^ k)"
      "exit_ok p Z bs (?r * 2 ^ (m - 1)) res"
      by auto
    then have "\<exists>res m. 0 < m
        \<and> unzipData p Z (Some bs) realSize
            = Some (Inr (res, map (\<lambda>k. Uncompress (?r * 2 ^ k) bs) [0..<m]))
        \<and> (\<forall>k. Suc k < m \<longrightarrow> retried p Z bs (?r * 2 ^ k))
        \<and> exit_ok p Z bs (?r * 2 ^ (m - 1)) res"
      by blast
    with 4 pos Some show ?thesis by simp
  qed
qed

text \<open>
  A run with four doublings, 3 compressed bytes that stand for 200 bytes; and the same
  bytes on a 32-bit target with a size of \<open>2 ^ 31\<close>, which line 52 refuses.
\<close>

theorem unzipData_terminates_witness:
  "(0 < firstSize LP64 (length [0x78, 200, 7 :: byte]) 0
    \<and> (\<exists>res m. 0 < m
         \<and> unzipData LP64 rle_zlib (Some [0x78, 200, 7]) 0
             = Some (Inr (res, map (\<lambda>k. Uncompress
                    (firstSize LP64 (length [0x78, 200, 7 :: byte]) 0 * 2 ^ k) [0x78, 200, 7])
                  [0..<m]))
         \<and> (\<forall>k. Suc k < m \<longrightarrow> retried LP64 rle_zlib [0x78, 200, 7]
                    (firstSize LP64 (length [0x78, 200, 7 :: byte]) 0 * 2 ^ k))
         \<and> exit_ok LP64 rle_zlib [0x78, 200, 7]
              (firstSize LP64 (length [0x78, 200, 7 :: byte]) 0 * 2 ^ (m - 1)) res)
    \<and> unzipData LP64 rle_zlib (Some [0x78, 200, 7]) 0
        = Some (Inr (replicate 200 7,
                     map (\<lambda>k. Uncompress (21 * 2 ^ k) [0x78, 200, 7]) [0..<5])))
   \<and> unzipData ILP32 rle_zlib (Some [0x78, 200, 7]) (2 ^ 31) = Some (Inl LengthError)"
proof -
  have run: "0 < firstSize LP64 (length [0x78, 200, 7 :: byte]) 0
    \<and> (\<exists>res m. 0 < m
         \<and> unzipData LP64 rle_zlib (Some [0x78, 200, 7]) 0
             = Some (Inr (res, map (\<lambda>k. Uncompress
                    (firstSize LP64 (length [0x78, 200, 7 :: byte]) 0 * 2 ^ k) [0x78, 200, 7])
                  [0..<m]))
         \<and> (\<forall>k. Suc k < m \<longrightarrow> retried LP64 rle_zlib [0x78, 200, 7]
                    (firstSize LP64 (length [0x78, 200, 7 :: byte]) 0 * 2 ^ k))
         \<and> exit_ok LP64 rle_zlib [0x78, 200, 7]
              (firstSize LP64 (length [0x78, 200, 7 :: byte]) 0 * 2 ^ (m - 1)) res)"
    using unzipData_terminates [where src = "Some [0x78, 200, 7]" and p = LP64
        and Z = rle_zlib and realSize = 0]
    by (simp add: LP64_def firstSize_def)
  have throw: "unzipData ILP32 rle_zlib (Some [0x78, 200, 7]) (2 ^ 31) = Some (Inl LengthError)"
    using unzipData_terminates [where src = "Some [0x78, 200, 7]" and p = ILP32
        and Z = rle_zlib and realSize = "2 ^ 31"]
    by (simp add: ILP32_def)
  from run unzipData_rle_200 throw show ?thesis
    by simp
qed

text \<open>
  The three ways out that the claim names are not all. On 64-bit Windows, take a stream of
  19500001 bytes that is valid for 2486250000 zero bytes. The attempts use 136500007 bytes
  and then the double each time, up to 2184000112. The library reports that this buffer is
  too small too, so it neither succeeded nor returned another error; and the double,
  4368000224, is far below \<open>max_size()\<close>. Yet the loop is left, with an empty vector, for
  the double does not fit the 32 bits of \<open>uLong\<close> (line 87).
\<close>

theorem unzipData_terminates_counterexample:
  "fst (uncompress rle_zlib 2184000112 (0x78 # concat (replicate 9750000 [255, 0])))
     = Z_BUF_ERROR
   \<and> 2 * 2184000112 \<le> max_size LLP64
   \<and> unzipData LLP64 rle_zlib (Some (0x78 # concat (replicate 9750000 [255, 0]))) 0
       = Some (Inr ([], map (\<lambda>k. Uncompress (136500007 * 2 ^ k)
                                   (0x78 # concat (replicate 9750000 [255, 0])))
                          [0..<5]))"
proof -
  let ?z = "0x78 # concat (replicate 9750000 [255, 0 :: byte])"
  have len: "length ?z = 19500001"
    by (simp add: length_concat sum_list_replicate)
  have u: "uncompress rle_zlib cap ?z
             = (if 2486250000 \<le> cap then (Z_OK, replicate 2486250000 0)
                else (Z_BUF_ERROR, []))" for cap
    using rle_uncompress_runs [of cap 9750000 255 0] by simp
  have m: "max_size LLP64 div 2 = 4611686018427387903" "uLong_bits LLP64 = 32"
    by (simp_all add: LLP64_def)
  have "unzipData LLP64 rle_zlib (Some ?z) 0
          = map_option Inr (unzip_loop LLP64 rle_zlib ?z 136500007 [])"
    by (rule unzipData_enter [OF len]) (simp_all add: firstSize_def LLP64_def)
  also have "\<dots> = map_option Inr (unzip_loop LLP64 rle_zlib ?z 273000014
        [Uncompress 136500007 ?z])"
    by (subst unzip_loop_retry) (simp_all only: u m, simp_all)
  also have "\<dots> = map_option Inr (unzip_loop LLP64 rle_zlib ?z 546000028
        ([Uncompress 136500007 ?z] @ [Uncompress 273000014 ?z]))"
    by (subst unzip_loop_retry) (simp_all only: u m, simp_all)
  also have "\<dots> = map_option Inr (unzip_loop LLP64 rle_zlib ?z 1092000056
        (([Uncompress 136500007 ?z] @ [Uncompress 273000014 ?z]) @ [Uncompress 546000028 ?z]))"
    by (subst unzip_loop_retry) (simp_all only: u m, simp_all)
  also have "\<dots> = map_option Inr (unzip_loop LLP64 rle_zlib ?z 2184000112
        ((([Uncompress 136500007 ?z] @ [Uncompress 273000014 ?z]) @ [Uncompress 546000028 ?z])
           @ [Uncompress 1092000056 ?z]))"
    by (subst unzip_loop_retry) (simp_all only: u m, simp_all)
  also have "\<dots> = Some (Inr ([],
        (((([Uncompress 136500007 ?z] @ [Uncompress 273000014 ?z]) @ [Uncompress 546000028 ?z])
           @ [Uncompress 1092000056 ?z]) @ [Uncompress 2184000112 ?z])))"
    by (subst unzip_loop_stop [where ret = Z_BUF_ERROR and out = "[]"])
       (simp_all only: u m to_uLong_def, simp_all add: Z_codes_distinct)
  finally have "unzipData LLP64 rle_zlib (Some ?z) 0
       = Some (Inr ([], map (\<lambda>k. Uncompress (136500007 * 2 ^ k) ?z) [0..<5]))"
    unfolding upt_0_5 by simp
  moreover have "fst (uncompress rle_zlib 2184000112 ?z) = Z_BUF_ERROR"
    by (simp add: u)
  moreover have "2 * 2184000112 \<le> max_size LLP64"
    by (simp add: LLP64_def)
  ultimately show ?thesis
    by simp
qed

subsection \<open>C9: null and empty sources\<close>

text \<open>
  C9. Called with a null source pointer or with a source length of zero, \<open>zipData\<close> and
  \<open>unzipData\<close> both return an empty vector, and no call to the library is made.
\<close>

theorem degenerate_input_empty_without_library:
  assumes "src = None \<or> src = Some []"
  shows "zipData p Z src = ([], []) \<and> unzipData p Z src realSize = Some (Inr ([], []))"
  using assms by (auto simp: zipData_def unzipData_def)

theorem degenerate_input_empty_without_library_witness:
  "(Some [] = (None :: byte list option) \<or> Some [] = Some ([] :: byte list))
   \<and> zipData LLP64 rle_zlib (Some []) = ([], [])
   \<and> unzipData LLP64 rle_zlib (Some []) 12 = Some (Inr ([], []))
   \<and> zipData LLP64 rle_zlib None = ([], [])
   \<and> unzipData LLP64 rle_zlib None 0 = Some (Inr ([], []))"
  using degenerate_input_empty_without_library [of "Some []" LLP64 rle_zlib 12]
    degenerate_input_empty_without_library [of None LLP64 rle_zlib 0]
  by simp

subsection \<open>C10: \<open>zipStreamBuf\<close> when the compression gives nothing\<close>

text \<open>
  C10. When the compression of the input gives an empty vector, \<open>zipStreamBuf\<close> returns
  false and leaves the output stream as it was: no field and no payload byte is written.
\<close>

theorem zipStreamBuf_empty_compression:
  assumes "fst (zipData p Z src) = []"
  shows "zipStreamBuf p Z OS src t = (False, t)"
  using assms by (simp add: zipStreamBuf_def)

theorem zipStreamBuf_empty_compression_witness:
  "fst (zipData LLP64 rle_zlib (Some (replicate (2 ^ 32) 0))) = []
   \<and> zipStreamBuf LLP64 rle_zlib memOStream (Some (replicate (2 ^ 32) 0)) (freshStream True)
       = (False, freshStream True)"
proof -
  have z: "fst (zipData LLP64 rle_zlib (Some (replicate (2 ^ 32) 0))) = []"
    by (simp add: zipData_def LLP64_def to_uLong_def)
  from zipStreamBuf_empty_compression [OF z] z show ?thesis
    by simp
qed

end
